theory Spec2Isabelle
  imports Main "HOL-Library.Multiset"
begin

section \<open>JavaScript values\<close>

text \<open>
  The front end handles parsed JSON and form strings.  A value is one of the plain data
  values of JavaScript.  Numbers are modelled as integers (the progress column of the
  schema is \<open>INTEGER\<close>); strings are byte strings.  An object is its list of
  own properties, in insertion order.
\<close>

datatype jsval =
    JUndefined
  | JNull
  | JBool bool
  | JNum int
  | JStr string
  | JArr "jsval list"
  | JObj "(string \<times> jsval) list"

text \<open>JavaScript's \<open>ToBoolean\<close>, as used by \<open>if\<close>, \<open>!\<close>, \<open>||\<close>, \<open>&&\<close> and \<open>?:\<close>.\<close>

fun truthy :: "jsval \<Rightarrow> bool" where
  "truthy JUndefined = False"
| "truthy JNull = False"
| "truthy (JBool b) = b"
| "truthy (JNum n) = (n \<noteq> 0)"
| "truthy (JStr s) = (s \<noteq> [])"
| "truthy (JArr xs) = True"
| "truthy (JObj kvs) = True"

text \<open>\<open>a || b\<close>\<close>

definition js_or :: "jsval \<Rightarrow> jsval \<Rightarrow> jsval" where
  "js_or a b = (if truthy a then a else b)"

text \<open>Reading a property of \<open>null\<close> or \<open>undefined\<close> throws a TypeError.\<close>

definition nullish :: "jsval \<Rightarrow> bool" where
  "nullish v = (v = JUndefined \<or> v = JNull)"

text \<open>
  \<open>v.k\<close> for a data key \<open>k\<close> on a value that is not nullish: an object yields its own
  property, anything else (and a missing key) yields \<open>undefined\<close>.  Every caller checks
  \<open>nullish\<close> first and takes the source's exception path there.
\<close>

fun get_prop :: "jsval \<Rightarrow> string \<Rightarrow> jsval" where
  "get_prop (JObj kvs) k = (case map_of kvs k of None \<Rightarrow> JUndefined | Some v \<Rightarrow> v)"
| "get_prop v k = JUndefined"

text \<open>\<open>v?.k\<close>\<close>

definition opt_prop :: "jsval \<Rightarrow> string \<Rightarrow> jsval" where
  "opt_prop v k = (if nullish v then JUndefined else get_prop v k)"

text \<open>Decimal rendering of a number, as \<open>String(n)\<close> does for an integer (JavaScript
  switches to exponent notation from \<open>10^21\<close> on; the quantities here stay far below).\<close>

definition digit_char :: "nat \<Rightarrow> char" where
  "digit_char n = ''0123456789'' ! (n mod 10)"

fun nat_to_string :: "nat \<Rightarrow> string" where
  "nat_to_string n =
     (if n < 10 then [digit_char n] else nat_to_string (n div 10) @ [digit_char (n mod 10)])"

declare nat_to_string.simps [simp del]

definition int_to_string :: "int \<Rightarrow> string" where
  "int_to_string i =
     (if i < 0 then CHR ''-'' # nat_to_string (nat (- i)) else nat_to_string (nat i))"

text \<open>\<open>Array.prototype.join\<close> on strings that are already converted.\<close>

fun join :: "string \<Rightarrow> string list \<Rightarrow> string" where
  "join sep [] = []"
| "join sep [x] = x"
| "join sep (x # y # ys) = x @ sep @ join sep (y # ys)"

text \<open>
  JavaScript's \<open>ToString\<close>, as used by template literals and string concatenation.
  Inside an array, \<open>null\<close> and \<open>undefined\<close> elements become the empty string.
\<close>

fun ToString :: "jsval \<Rightarrow> string" where
  "ToString JUndefined = ''undefined''"
| "ToString JNull = ''null''"
| "ToString (JBool b) = (if b then ''true'' else ''false'')"
| "ToString (JNum n) = int_to_string n"
| "ToString (JStr s) = s"
| "ToString (JArr xs) =
     join '','' (map (\<lambda>x. if x = JNull \<or> x = JUndefined then [] else ToString x) xs)"
| "ToString (JObj kvs) = ''[object Object]''"

text \<open>\<open>xs.join(sep)\<close> on an array of values.\<close>

definition array_join :: "string \<Rightarrow> jsval list \<Rightarrow> string" where
  "array_join sep xs =
     join sep (map (\<lambda>x. if x = JNull \<or> x = JUndefined then [] else ToString x) xs)"

text \<open>
  The outcome of an awaited axios call: \<open>response.data\<close> of a resolved call, or a
  rejection with \<open>error.response\<close> as its status and body (\<open>None\<close> when the error
  has no response, as for a network failure).
\<close>

datatype http_result = Resolved jsval | Rejected "(nat \<times> jsval) option"

section \<open>Progress Tracker (\<open>components/ProgressTracker.js\<close>)\<close>

text \<open>
  The component's React state (\<open>progress\<close>, \<open>loading\<close>, \<open>error\<close>), the route
  parameter, and the part of the browser the component acts on: a millisecond clock, the
  timer registered by \<open>setInterval\<close> (its next due time), the timers registered by
  \<open>setTimeout\<close> (due time and navigation target), and logs of the GET requests issued and
  of the calls of \<open>navigate\<close>, each with its time.
\<close>

record tracker =
  projectId :: string
  progress :: jsval
  loading :: bool
  error :: "string option"
  now :: nat
  interval :: "nat option"
  timeouts :: "(nat \<times> string) list"
  requests :: "(nat \<times> string) list"
  navigations :: "(nat \<times> string) list"

definition progress_url :: "string \<Rightarrow> string" where
  "progress_url pid = ''/api/progress/'' @ pid"

definition project_path :: "string \<Rightarrow> string" where
  "project_path pid = ''/project/'' @ pid"

text \<open>The \<open>useState\<close> defaults, before any effect has run.\<close>

definition initial :: "string \<Rightarrow> tracker" where
  "initial pid =
     \<lparr> projectId = pid, progress = JNull, loading = True, error = None, now = 0,
       interval = None, timeouts = [], requests = [], navigations = [] \<rparr>"

text \<open>\<open>fetchProgress\<close> up to its \<open>await\<close>: the GET request leaves.\<close>

definition fetchProgress_request :: "tracker \<Rightarrow> tracker" where
  "fetchProgress_request st =
     st\<lparr>requests := requests st @ [(now st, progress_url (projectId st))]\<rparr>"

text \<open>
  \<open>fetchProgress\<close> from its \<open>await\<close> on.  A resolved response is stored and the error
  cleared; reading \<open>overall_progress\<close> of a nullish body throws inside the \<open>try\<close>, and that
  error has no \<open>response\<close>.  \<open>finally\<close> clears \<open>loading\<close> on every path.
\<close>

definition fetchProgress_settle :: "http_result \<Rightarrow> tracker \<Rightarrow> tracker" where
  "fetchProgress_settle r st =
     (case r of
        Resolved data \<Rightarrow>
          (let st1 = st\<lparr>progress := data, error := None\<rparr> in
           (if nullish data then st1\<lparr>error := Some ''Failed to fetch progress''\<rparr>
            else if get_prop data ''overall_progress'' = JNum 100
              then st1\<lparr>timeouts := timeouts st1 @ [(now st1 + 2000, project_path (projectId st1))]\<rparr>
            else st1)\<lparr>loading := False\<rparr>)
      | Rejected response \<Rightarrow>
          (if map_option fst response = Some 404
             then st\<lparr>error := Some ''Progress tracking not found for this project''\<rparr>
           else st\<lparr>error := Some ''Failed to fetch progress''\<rparr>)\<lparr>loading := False\<rparr>)"

text \<open>The effect of \<open>useEffect\<close> at mount, and its cleanup.\<close>

definition mount :: "tracker \<Rightarrow> tracker" where
  "mount st =
     (if projectId st \<noteq> []
        then (fetchProgress_request st)\<lparr>interval := Some (now st + 2000)\<rparr>
      else st)"

definition unmount :: "tracker \<Rightarrow> tracker" where
  "unmount st = st\<lparr>interval := None\<rparr>"

text \<open>
  \<open>navigate(path)\<close>: the router leaves the \<open>/progress/:projectId\<close> route (\<open>App.js\<close> maps
  every other path to another element), so the component unmounts and the cleanup runs.
\<close>

definition navigate :: "string \<Rightarrow> tracker \<Rightarrow> tracker" where
  "navigate path st = unmount (st\<lparr>navigations := navigations st @ [(now st, path)]\<rparr>)"

text \<open>The interval timer fires: \<open>fetchProgress\<close> is called and the timer is due again 2000 ms on.\<close>

definition fire_interval :: "nat \<Rightarrow> tracker \<Rightarrow> tracker" where
  "fire_interval d st =
     (fetchProgress_request (st\<lparr>now := max (now st) d\<rparr>))\<lparr>interval := Some (d + 2000)\<rparr>"

text \<open>A one-shot timer fires: it leaves the timer list and its callback navigates.\<close>

definition fire_timeout :: "nat \<times> string \<Rightarrow> tracker \<Rightarrow> tracker" where
  "fire_timeout t st =
     navigate (snd t) (st\<lparr>now := max (now st) (fst t), timeouts := remove1 t (timeouts st)\<rparr>)"

text \<open>The one-shot timer that is due first; among equal due times the one registered first.\<close>

fun earliest :: "(nat \<times> string) list \<Rightarrow> (nat \<times> string) option" where
  "earliest [] = None"
| "earliest (t # ts) =
     (case earliest ts of
        None \<Rightarrow> Some t
      | Some u \<Rightarrow> if fst u < fst t then Some u else Some t)"

text \<open>
  The next timer of the event loop: \<open>(due, None)\<close> is the interval, \<open>(due, Some path)\<close> a
  one-shot timer.  At equal due times the interval, registered at mount, goes first.
\<close>

definition next_timer :: "tracker \<Rightarrow> (nat \<times> string option) option" where
  "next_timer st =
     (case (interval st, earliest (timeouts st)) of
        (None, None) \<Rightarrow> None
      | (Some d, None) \<Rightarrow> Some (d, None)
      | (None, Some t) \<Rightarrow> Some (fst t, Some (snd t))
      | (Some d, Some t) \<Rightarrow> if d \<le> fst t then Some (d, None) else Some (fst t, Some (snd t)))"

definition fire :: "nat \<times> string option \<Rightarrow> tracker \<Rightarrow> tracker" where
  "fire t st =
     (case snd t of
        None \<Rightarrow> fire_interval (fst t) st
      | Some path \<Rightarrow> fire_timeout (fst t, path) st)"

text \<open>The event loop runs every timer that is due up to time \<open>T\<close>, in order of due time.\<close>

function run_until :: "nat \<Rightarrow> tracker \<Rightarrow> tracker" where
  "run_until T st =
     (case next_timer st of
        None \<Rightarrow> st\<lparr>now := max (now st) T\<rparr>
      | Some t \<Rightarrow>
          if fst t \<le> T then run_until T (fire t st) else st\<lparr>now := max (now st) T\<rparr>)"
  by pat_completeness auto
termination
proof (relation "measure (\<lambda>(T, st).
    (case interval st of None \<Rightarrow> 0 | Some d \<Rightarrow> Suc T - d) + length (timeouts st))")
  show "wf (measure (\<lambda>(T, st).
    (case interval st of None \<Rightarrow> 0 | Some d \<Rightarrow> Suc T - d) + length (timeouts st)))"
    by simp
next
  fix T :: nat and st :: tracker and t :: "nat \<times> string option"
  assume nt: "next_timer st = Some t" and le: "fst t \<le> T"
  show "((T, fire t st), (T, st)) \<in> measure (\<lambda>(T, st).
    (case interval st of None \<Rightarrow> 0 | Some d \<Rightarrow> Suc T - d) + length (timeouts st))"
  proof (cases "snd t")
    case None
    with nt have "interval st = Some (fst t)"
      by (auto simp: next_timer_def split: option.splits if_splits)
    with None le show ?thesis
      by (simp add: fire_def fire_interval_def fetchProgress_request_def)
  next
    case (Some path)
    have mem: "earliest ts = Some u \<Longrightarrow> u \<in> set ts" for ts u
      by (induction ts arbitrary: u) (auto split: option.splits if_splits)
    from Some nt have "earliest (timeouts st) = Some (fst t, path)"
      by (auto simp: next_timer_def split: option.splits if_splits)
    then have "(fst t, path) \<in> set (timeouts st)"
      by (rule mem)
    then have "length (remove1 (fst t, path) (timeouts st)) < length (timeouts st)"
      by (simp add: length_remove1) (cases "timeouts st", auto)
    with Some show ?thesis
      by (auto simp: fire_def fire_timeout_def navigate_def unmount_def split: option.splits)
  qed
qed

declare run_until.simps [simp del]

text \<open>
  What happens to a tracker from outside: a pending request settles, the component is
  unmounted, or the user clicks the error screen's button.  A trace gives each event
  its time; the timers due before an event run first.
\<close>

datatype event = Settle http_result | Unmount | BackToDashboard

fun handle :: "event \<Rightarrow> tracker \<Rightarrow> tracker" where
  "handle (Settle r) st = fetchProgress_settle r st"
| "handle Unmount st = unmount st"
| "handle BackToDashboard st = navigate ''/dashboard'' st"

fun exec :: "(nat \<times> event) list \<Rightarrow> tracker \<Rightarrow> tracker" where
  "exec [] st = st"
| "exec ((t, e) # es) st = exec es (handle e (run_until t st))"


text \<open>
  A settled request registers a navigation timer exactly when it resolved with a body
  whose \<open>overall_progress\<close> is 100.  An event is quiet when it is a settled request that
  registers none.
\<close>

fun schedules_navigation :: "http_result \<Rightarrow> bool" where
  "schedules_navigation (Resolved d) =
     (\<not> nullish d \<and> get_prop d ''overall_progress'' = JNum 100)"
| "schedules_navigation (Rejected response) = False"

fun quiet :: "event \<Rightarrow> bool" where
  "quiet (Settle r) = (\<not> schedules_navigation r)"
| "quiet Unmount = False"
| "quiet BackToDashboard = False"

text \<open>
  The state of a tracker that is polling: no navigation pending, the interval due at the
  next multiple of 2000 ms, and one request issued at each multiple so far.
\<close>

definition polling :: "string \<Rightarrow> tracker \<Rightarrow> bool" where
  "polling pid st =
     (projectId st = pid \<and> timeouts st = []
      \<and> interval st = Some (2000 * Suc (now st div 2000))
      \<and> requests st = map (\<lambda>k. (2000 * k, progress_url pid)) [0..<Suc (now st div 2000)])"

subsection \<open>Rendering\<close>

text \<open>
  How React renders a JSX child \<open>{v}\<close>: numbers and strings as text, booleans, \<open>null\<close>
  and \<open>undefined\<close> as nothing, an array as its children; a plain object is refused
  (\<open>None\<close>).
\<close>

fun render_child :: "jsval \<Rightarrow> string option" where
  "render_child JUndefined = Some []"
| "render_child JNull = Some []"
| "render_child (JBool b) = Some []"
| "render_child (JNum n) = Some (int_to_string n)"
| "render_child (JStr s) = Some s"
| "render_child (JArr xs) = map_option concat (those (map render_child xs))"
| "render_child (JObj kvs) = None"

text \<open>\<open>progress?.overall_progress || 0\<close>, written twice in the JSX (text and bar width).\<close>

definition percentage_value :: "jsval \<Rightarrow> jsval" where
  "percentage_value p = js_or (opt_prop p ''overall_progress'') (JNum 0)"

text \<open>The text node \<open>{progress?.overall_progress || 0}%\<close>.\<close>

definition percentage_text :: "jsval \<Rightarrow> string option" where
  "percentage_text p = map_option (\<lambda>s. s @ ''%'') (render_child (percentage_value p))"

text \<open>The style \<open>width: `${progress?.overall_progress || 0}%`\<close>.\<close>

definition bar_width :: "jsval \<Rightarrow> string" where
  "bar_width p = ToString (percentage_value p) @ ''%''"

text \<open>The three screens of the component, chosen in the source's order.\<close>

datatype screen =
    LoadingScreen
  | ErrorScreen string
  | ProgressScreen "string option" string

definition render :: "tracker \<Rightarrow> screen" where
  "render st =
     (if loading st then LoadingScreen
      else (case error st of
              Some e \<Rightarrow>
                if e \<noteq> [] then ErrorScreen e
                else ProgressScreen (percentage_text (progress st)) (bar_width (progress st))
            | None \<Rightarrow> ProgressScreen (percentage_text (progress st)) (bar_width (progress st))))"


section \<open>JSON text\<close>

text \<open>
  \<open>JSON.stringify\<close> on plain data.  It yields \<open>undefined\<close> (\<open>None\<close>) for \<open>undefined\<close>;
  inside an array \<open>undefined\<close> is written as \<open>null\<close>, inside an object the property is
  left out.
\<close>

definition hex_char :: "nat \<Rightarrow> char" where
  "hex_char n = ''0123456789abcdef'' ! (n mod 16)"

definition escape_char :: "char \<Rightarrow> string" where
  "escape_char c =
     (if c = CHR 0x22 then [CHR 0x5C, CHR 0x22]
      else if c = CHR 0x5C then [CHR 0x5C, CHR 0x5C]
      else if c = CHR 0x08 then [CHR 0x5C, CHR ''b'']
      else if c = CHR 0x09 then [CHR 0x5C, CHR ''t'']
      else if c = CHR 0x0A then [CHR 0x5C, CHR ''n'']
      else if c = CHR 0x0C then [CHR 0x5C, CHR ''f'']
      else if c = CHR 0x0D then [CHR 0x5C, CHR ''r'']
      else if (of_char c :: nat) < 32
        then [CHR 0x5C, CHR ''u'', CHR ''0'', CHR ''0'',
              hex_char (of_char c div 16), hex_char (of_char c mod 16)]
      else [c])"

definition quote :: "string \<Rightarrow> string" where
  "quote s = CHR 0x22 # concat (map escape_char s) @ [CHR 0x22]"

fun JSON_stringify :: "jsval \<Rightarrow> string option" where
  "JSON_stringify JUndefined = None"
| "JSON_stringify JNull = Some ''null''"
| "JSON_stringify (JBool b) = Some (if b then ''true'' else ''false'')"
| "JSON_stringify (JNum n) = Some (int_to_string n)"
| "JSON_stringify (JStr s) = Some (quote s)"
| "JSON_stringify (JArr xs) =
     Some (''['' @ join '',''
        (map (\<lambda>x. case JSON_stringify x of None \<Rightarrow> ''null'' | Some t \<Rightarrow> t) xs) @ '']'')"
| "JSON_stringify (JObj kvs) =
     Some (''{'' @ join '',''
        (concat (map (\<lambda>kv. case JSON_stringify (snd kv) of
                               None \<Rightarrow> []
                             | Some t \<Rightarrow> [quote (fst kv) @ '':'' @ t]) kvs)) @ ''}'')"

text \<open>
  \<open>JSON.parse\<close>, by recursive descent; \<open>None\<close> is its SyntaxError.  Integers only, and
  unicode escapes up to code point 255, as the value model has it.  The first argument
  bounds the nesting of calls; the text itself is long enough, since every call reads at
  least one character of its own.
\<close>

definition is_ws :: "char \<Rightarrow> bool" where
  "is_ws c = (c = CHR 0x20 \<or> c = CHR 0x09 \<or> c = CHR 0x0A \<or> c = CHR 0x0D)"

definition skip_ws :: "string \<Rightarrow> string" where
  "skip_ws s = dropWhile is_ws s"

fun index_of :: "'a \<Rightarrow> 'a list \<Rightarrow> nat option" where
  "index_of x [] = None"
| "index_of x (y # ys) = (if x = y then Some 0 else map_option Suc (index_of x ys))"

definition digit_val :: "char \<Rightarrow> nat option" where
  "digit_val c = index_of c ''0123456789''"

definition hex_val :: "char \<Rightarrow> nat option" where
  "hex_val c =
     (case index_of c ''0123456789abcdef'' of
        Some v \<Rightarrow> Some v
      | None \<Rightarrow> map_option (\<lambda>i. i + 10) (index_of c ''ABCDEF''))"

definition unescape :: "char \<Rightarrow> char option" where
  "unescape e =
     (if e = CHR 0x22 \<or> e = CHR 0x5C \<or> e = CHR ''/'' then Some e
      else if e = CHR ''b'' then Some (CHR 0x08)
      else if e = CHR ''t'' then Some (CHR 0x09)
      else if e = CHR ''n'' then Some (CHR 0x0A)
      else if e = CHR ''f'' then Some (CHR 0x0C)
      else if e = CHR ''r'' then Some (CHR 0x0D)
      else None)"

definition unicode_escape :: "string \<Rightarrow> char option" where
  "unicode_escape hs =
     (case map hex_val hs of
        [Some a, Some b, Some c, Some d] \<Rightarrow>
          if a = 0 \<and> b = 0 then Some (char_of (16 * c + d)) else None
      | _ \<Rightarrow> None)"

text \<open>The characters of a string literal after its opening quote, and the rest of the text.\<close>

fun parse_chars :: "string \<Rightarrow> (string \<times> string) option" where
  "parse_chars [] = None"
| "parse_chars (c # cs) =
     (if c = CHR 0x22 then Some ([], cs)
      else if c = CHR 0x5C then
        (case cs of
           [] \<Rightarrow> None
         | e # r \<Rightarrow>
             if e = CHR ''u'' then
               (case unicode_escape (take 4 r) of
                  None \<Rightarrow> None
                | Some u \<Rightarrow> map_option (\<lambda>p. (u # fst p, snd p)) (parse_chars (drop 4 r)))
             else
               (case unescape e of
                  None \<Rightarrow> None
                | Some u \<Rightarrow> map_option (\<lambda>p. (u # fst p, snd p)) (parse_chars r)))
      else if (of_char c :: nat) < 32 then None
      else map_option (\<lambda>p. (c # fst p, snd p)) (parse_chars cs))"

text \<open>The value of a run of decimal digits, most significant first.\<close>

definition digits_value :: "nat \<Rightarrow> string \<Rightarrow> nat" where
  "digits_value k ds =
     foldl (\<lambda>a c. 10 * a + (case digit_val c of Some d \<Rightarrow> d | None \<Rightarrow> 0)) k ds"

definition parse_nat :: "string \<Rightarrow> (nat \<times> string) option" where
  "parse_nat s =
     (let ds = takeWhile (\<lambda>c. digit_val c \<noteq> None) s in
      if ds = [] then None
      else Some (digits_value 0 ds, dropWhile (\<lambda>c. digit_val c \<noteq> None) s))"

definition parse_number :: "string \<Rightarrow> (jsval \<times> string) option" where
  "parse_number s =
     (case s of
        [] \<Rightarrow> None
      | c # r \<Rightarrow>
          if c = CHR ''-'' then map_option (\<lambda>p. (JNum (- int (fst p)), snd p)) (parse_nat r)
          else map_option (\<lambda>p. (JNum (int (fst p)), snd p)) (parse_nat s))"

definition strip_prefix :: "string \<Rightarrow> string \<Rightarrow> string option" where
  "strip_prefix p s = (if take (length p) s = p then Some (drop (length p) s) else None)"

text \<open>A repeated key keeps its first position and its last value.\<close>

definition obj_set :: "(string \<times> jsval) list \<Rightarrow> string \<times> jsval \<Rightarrow> (string \<times> jsval) list" where
  "obj_set kvs kv =
     (if fst kv \<in> set (map fst kvs)
        then map (\<lambda>old. if fst old = fst kv then kv else old) kvs
      else kvs @ [kv])"

fun parse_value :: "'a list \<Rightarrow> string \<Rightarrow> (jsval \<times> string) option"
  and parse_elements :: "'a list \<Rightarrow> string \<Rightarrow> (jsval list \<times> string) option"
  and parse_members :: "'a list \<Rightarrow> string \<Rightarrow> ((string \<times> jsval) list \<times> string) option"
where
  "parse_value [] s = None"
| "parse_value (f # fuel) s =
     (case skip_ws s of
        [] \<Rightarrow> None
      | c # r \<Rightarrow>
          if c = CHR ''n'' then map_option (Pair JNull) (strip_prefix ''ull'' r)
          else if c = CHR ''t'' then map_option (Pair (JBool True)) (strip_prefix ''rue'' r)
          else if c = CHR ''f'' then map_option (Pair (JBool False)) (strip_prefix ''alse'' r)
          else if c = CHR 0x22 then map_option (\<lambda>p. (JStr (fst p), snd p)) (parse_chars r)
          else if c = CHR ''['' then
            (case skip_ws r of
               [] \<Rightarrow> None
             | c1 # r1 \<Rightarrow>
                 if c1 = CHR '']'' then Some (JArr [], r1)
                 else map_option (\<lambda>p. (JArr (fst p), snd p)) (parse_elements fuel (c1 # r1)))
          else if c = CHR ''{'' then
            (case skip_ws r of
               [] \<Rightarrow> None
             | c1 # r1 \<Rightarrow>
                 if c1 = CHR ''}'' then Some (JObj [], r1)
                 else map_option (\<lambda>p. (JObj (foldl obj_set [] (fst p)), snd p))
                        (parse_members fuel (c1 # r1)))
          else parse_number (c # r))"
| "parse_elements [] s = None"
| "parse_elements (f # fuel) s =
     (case parse_value fuel s of
        None \<Rightarrow> None
      | Some (v, r) \<Rightarrow>
          (case skip_ws r of
             [] \<Rightarrow> None
           | c # r1 \<Rightarrow>
               if c = CHR '','' then map_option (\<lambda>p. (v # fst p, snd p)) (parse_elements fuel r1)
               else if c = CHR '']'' then Some ([v], r1)
               else None))"
| "parse_members [] s = None"
| "parse_members (f # fuel) s =
     (case skip_ws s of
        [] \<Rightarrow> None
      | c # r \<Rightarrow>
          if c \<noteq> CHR 0x22 then None
          else
            (case parse_chars r of
               None \<Rightarrow> None
             | Some (k, r1) \<Rightarrow>
                 (case skip_ws r1 of
                    [] \<Rightarrow> None
                  | c1 # r2 \<Rightarrow>
                      if c1 \<noteq> CHR '':'' then None
                      else
                        (case parse_value fuel r2 of
                           None \<Rightarrow> None
                         | Some (v, r3) \<Rightarrow>
                             (case skip_ws r3 of
                                [] \<Rightarrow> None
                              | c2 # r4 \<Rightarrow>
                                  if c2 = CHR '','' then
                                    map_option (\<lambda>p. ((k, v) # fst p, snd p)) (parse_members fuel r4)
                                  else if c2 = CHR ''}'' then Some ([(k, v)], r4)
                                  else None)))))"

definition JSON_parse :: "string \<Rightarrow> jsval option" where
  "JSON_parse s =
     (case parse_value s s of
        None \<Rightarrow> None
      | Some (v, r) \<Rightarrow> if skip_ws r = [] then Some v else None)"


subsection \<open>Data that survives serialisation\<close>

text \<open>
  Plain JSON data: no \<open>undefined\<close> anywhere, and no key twice in an object.  This is what
  an axios response body is, and what \<open>JSON.parse\<close> gives back unchanged.
\<close>

fun json_data :: "jsval \<Rightarrow> bool" where
  "json_data JUndefined = False"
| "json_data JNull = True"
| "json_data (JBool b) = True"
| "json_data (JNum n) = True"
| "json_data (JStr s) = True"
| "json_data (JArr xs) = (\<forall>x \<in> set xs. json_data x)"
| "json_data (JObj kvs) = (distinct (map fst kvs) \<and> (\<forall>kv \<in> set kvs. json_data (snd kv)))"

text \<open>The text written for a value inside an array, and for a member of an object.\<close>

definition text_of :: "jsval \<Rightarrow> string" where
  "text_of v = (case JSON_stringify v of None \<Rightarrow> ''null'' | Some t \<Rightarrow> t)"

definition member_text :: "string \<times> jsval \<Rightarrow> string" where
  "member_text kv = quote (fst kv) @ '':'' @ text_of (snd kv)"

text \<open>The characters a JSON value can start with.\<close>

definition value_start :: "char \<Rightarrow> bool" where
  "value_start c = (c \<in> set ''ntf[{-0123456789'' \<or> c = CHR 0x22)"

text \<open>
  What may come after a value in a text (nothing, or a character that is no digit), and
  the property that the parser, given enough fuel, reads a value back from its text and
  leaves what follows.
\<close>

definition follow :: "string \<Rightarrow> bool" where
  "follow r = (r = [] \<or> digit_val (hd r) = None)"

definition reads_back :: "jsval \<Rightarrow> bool" where
  "reads_back v =
     (\<forall>(fuel::string) r. length (text_of v) \<le> length fuel \<longrightarrow> follow r \<longrightarrow>
        parse_value fuel (text_of v @ r) = Some (v, r))"

section \<open>Session store (\<open>App.js\<close>)\<close>

text \<open>
  The \<open>App\<close> component's state, the browser's local storage, and the default headers
  of the shared axios instance (\<open>axios.defaults.headers.common\<close>), which axios copies
  into every request.
\<close>

record app =
  user :: jsval
  showAuth :: bool
  app_loading :: bool
  localStorage :: "string \<rightharpoonup> string"
  common_headers :: "string \<rightharpoonup> string"

text \<open>A handler either returns or throws; both leave a state behind.\<close>

datatype js_error = TypeError | SyntaxError

datatype 'a completion = Returned 'a | Threw js_error 'a

definition session_key :: string where
  "session_key = ''manuscriptify_user''"

text \<open>
  A page load starts the script afresh: React state and axios defaults are the initial
  ones, local storage is what the browser kept.
\<close>

definition page_load :: "(string \<rightharpoonup> string) \<Rightarrow> app" where
  "page_load storage =
     \<lparr> user = JNull, showAuth = False, app_loading = True,
       localStorage = storage, common_headers = Map.empty \<rparr>"

text \<open>\<open>axios.defaults.headers.common['Authorization'] = `Bearer ${userData.access_token}`\<close>,
  under its guard.\<close>

definition set_bearer :: "jsval \<Rightarrow> app \<Rightarrow> app" where
  "set_bearer userData st =
     (if truthy (get_prop userData ''access_token'')
        then st\<lparr>common_headers := (common_headers st)
               (''Authorization'' \<mapsto> ''Bearer '' @ ToString (get_prop userData ''access_token''))\<rparr>
      else st)"

text \<open>The mount effect of \<open>App\<close>: restore a saved session.\<close>

definition restore_session :: "app \<Rightarrow> app completion" where
  "restore_session st =
     (case localStorage st session_key of
        None \<Rightarrow> Returned (st\<lparr>app_loading := False\<rparr>)
      | Some savedUser \<Rightarrow>
          if savedUser = [] then Returned (st\<lparr>app_loading := False\<rparr>)
          else
            (case JSON_parse savedUser of
               None \<Rightarrow> Threw SyntaxError st
             | Some userData \<Rightarrow>
                 if nullish userData then Threw TypeError (st\<lparr>user := userData\<rparr>)
                 else Returned ((set_bearer userData (st\<lparr>user := userData\<rparr>))
                                  \<lparr>app_loading := False\<rparr>)))"

text \<open>\<open>localStorage.setItem\<close> stores the string form of its argument.\<close>

definition handleLogin :: "jsval \<Rightarrow> app \<Rightarrow> app completion" where
  "handleLogin userData st =
     (let st1 = st\<lparr>user := userData,
                    localStorage := (localStorage st)
                      (session_key \<mapsto> (case JSON_stringify userData of
                                         None \<Rightarrow> ''undefined''
                                       | Some t \<Rightarrow> t))\<rparr>
      in if nullish userData then Threw TypeError st1
         else Returned ((set_bearer userData st1)\<lparr>showAuth := False\<rparr>))"

definition handleLogout :: "app \<Rightarrow> app" where
  "handleLogout st =
     st\<lparr>user := JNull,
        localStorage := (localStorage st)(session_key := None),
        common_headers := (common_headers st)(''Authorization'' := None)\<rparr>"

text \<open>The headers of a request issued through axios with no headers of its own.\<close>

definition request_headers :: "app \<Rightarrow> (string \<rightharpoonup> string)" where
  "request_headers st = common_headers st"

text \<open>The state a handler leaves, and a reload of the page from it.\<close>

fun state_of :: "'a completion \<Rightarrow> 'a" where
  "state_of (Returned st) = st"
| "state_of (Threw e st) = st"

definition reload :: "app \<Rightarrow> app completion" where
  "reload st = restore_session (page_load (localStorage st))"


section \<open>Project Creator (\<open>components/ProjectCreator.js\<close>)\<close>

text \<open>
  \<open>String.prototype.trim\<close> removes the white space and line terminator code points of
  ECMAScript at both ends of a string: tab, line feed, vertical tab, form feed, carriage
  return, space, U+00A0, U+1680, U+2000 to U+200A, U+2028, U+2029, U+202F, U+205F, U+3000
  and U+FEFF.  Each is listed as the byte sequence that UTF-8 gives it.
\<close>

definition white_space :: "string list" where
  "white_space =
     [[CHR 0x09], [CHR 0x0A], [CHR 0x0B], [CHR 0x0C], [CHR 0x0D], [CHR 0x20],
      [CHR 0xC2, CHR 0xA0],
      [CHR 0xE1, CHR 0x9A, CHR 0x80],
      [CHR 0xE2, CHR 0x80, CHR 0x80], [CHR 0xE2, CHR 0x80, CHR 0x81],
      [CHR 0xE2, CHR 0x80, CHR 0x82], [CHR 0xE2, CHR 0x80, CHR 0x83],
      [CHR 0xE2, CHR 0x80, CHR 0x84], [CHR 0xE2, CHR 0x80, CHR 0x85],
      [CHR 0xE2, CHR 0x80, CHR 0x86], [CHR 0xE2, CHR 0x80, CHR 0x87],
      [CHR 0xE2, CHR 0x80, CHR 0x88], [CHR 0xE2, CHR 0x80, CHR 0x89],
      [CHR 0xE2, CHR 0x80, CHR 0x8A],
      [CHR 0xE2, CHR 0x80, CHR 0xA8], [CHR 0xE2, CHR 0x80, CHR 0xA9],
      [CHR 0xE2, CHR 0x80, CHR 0xAF],
      [CHR 0xE2, CHR 0x81, CHR 0x9F],
      [CHR 0xE3, CHR 0x80, CHR 0x80],
      [CHR 0xEF, CHR 0xBB, CHR 0xBF]]"

text \<open>The length of the white space the string begins with, 0 when it begins with none.\<close>

definition space_at_start :: "string list \<Rightarrow> string \<Rightarrow> nat" where
  "space_at_start ws s =
     (case filter (\<lambda>w. take (length w) s = w) ws of
        [] \<Rightarrow> 0
      | w # others \<Rightarrow> length w)"

text \<open>The string without the white space it begins with.\<close>

function strip_start :: "string list \<Rightarrow> string \<Rightarrow> string" where
  "strip_start ws s =
     (if space_at_start ws s = 0 then s
      else strip_start ws (drop (space_at_start ws s) s))"
  by pat_completeness auto
termination
proof (relation "measure (\<lambda>(ws, s). length s)")
  show "wf (measure (\<lambda>(ws, s). length s))" by simp
next
  fix ws :: "string list" and s :: string
  assume pos: "space_at_start ws s \<noteq> 0"
  then obtain w others where f: "filter (\<lambda>w. take (length w) s = w) ws = w # others"
    by (cases "filter (\<lambda>w. take (length w) s = w) ws") (auto simp: space_at_start_def)
  then have "w \<in> set (filter (\<lambda>w. take (length w) s = w) ws)" by simp
  then have t: "take (length w) s = w" by simp
  have n: "space_at_start ws s = length w" by (simp add: space_at_start_def f)
  have "length (take (length w) s) = length w"
    by (simp only: t)
  then have "length w \<le> length s"
    by simp
  moreover have "0 < length w"
    using pos n by simp
  ultimately have "length (drop (space_at_start ws s) s) < length s"
    by (simp only: n length_drop)
  then show "((ws, drop (space_at_start ws s) s), (ws, s)) \<in> measure (\<lambda>(ws, s). length s)"
    by simp
qed

declare strip_start.simps [simp del]

text \<open>
  Trailing white space is leading white space of the reversed string, with every
  sequence reversed: in UTF-8 a sequence that ends the text is a character of its own.
\<close>

definition trim :: "string \<Rightarrow> string" where
  "trim s = rev (strip_start (map rev white_space) (rev (strip_start white_space s)))"

text \<open>
  The form.  Every field is typed by the user, so it is a string, except \<open>content\<close>,
  which \<open>onDrop\<close> overwrites with \<open>response.data.extracted_text\<close>.
\<close>

record formData =
  title :: string
  author :: string
  description :: string
  genre :: string
  target_language :: string
  content :: jsval
  prompt :: string
  length_field :: string
  style :: string

datatype tab = PromptTab | UploadTab

record dropped_file =
  file_name :: string
  file_type :: string
  file_size :: nat

datatype call = Post string jsval | PostFile string dropped_file

datatype toast = ToastError jsval | ToastSuccess string

record creator =
  formData :: formData
  activeTab :: tab
  uploadedFile :: jsval
  creator_loading :: bool
  calls :: "call list"
  toasts :: "toast list"
  navigated :: "string list"

definition initial_creator :: creator where
  "initial_creator =
     \<lparr> formData = \<lparr> title = [], author = [], description = [], genre = ''ebook'',
                      target_language = ''en'', content = JStr [], prompt = [],
                      length_field = ''medium'', style = ''engaging'' \<rparr>,
       activeTab = PromptTab, uploadedFile = JNull, creator_loading = False,
       calls = [], toasts = [], navigated = [] \<rparr>"

record genre_info =
  genre_name :: string
  genre_description :: string
  specs :: string
  color :: string
  maxPages :: nat
  minPages :: nat

definition bullet :: string where
  "bullet = [CHR 0xE2, CHR 0x80, CHR 0xA2]"

definition genreConfig :: "(string \<times> genre_info) list" where
  "genreConfig =
     [(''ebook'',
        \<lparr> genre_name = ''E-book'',
          genre_description = ''Professional non-fiction books, guides, and educational content'',
          specs = ''75-150 pages '' @ bullet @ '' 6x9 format'',
          color = ''bg-blue-500'', maxPages = 150, minPages = 75 \<rparr>),
      (''novel'',
        \<lparr> genre_name = ''Novel'',
          genre_description = ''Fiction stories with compelling characters and narrative'',
          specs = ''100-250 pages '' @ bullet @ '' 6x9 format'',
          color = ''bg-purple-500'', maxPages = 250, minPages = 100 \<rparr>),
      (''kids_story'',
        \<lparr> genre_name = ''Kids Story'',
          genre_description = ''Illustrated children books with engaging artwork'',
          specs = ''Up to 25 pages '' @ bullet @ '' 8x10 format'',
          color = ''bg-green-500'', maxPages = 25, minPages = 1 \<rparr>),
      (''coloring_book'',
        \<lparr> genre_name = ''Coloring Book'',
          genre_description = ''Black & white illustrations perfect for coloring'',
          specs = ''20 pages '' @ bullet @ '' 8x10 format'',
          color = ''bg-orange-500'', maxPages = 20, minPages = 20 \<rparr>),
      (''audiobook'',
        \<lparr> genre_name = ''Audiobook'',
          genre_description =
            ''Professional narrated audio content with natural voice synthesis'',
          specs = ''2-8 hours runtime '' @ bullet @ '' MP3 format'',
          color = ''bg-red-500'', maxPages = 200, minPages = 50 \<rparr>)]"

text \<open>
  The genre cards are \<open>Object.entries(genreConfig)\<close>; clicking one sets \<open>formData.genre\<close>
  to its key.  With the initial \<open>'ebook'\<close> these are the genres a submission can carry.
\<close>

definition selectable_genres :: "string list" where
  "selectable_genres = map fst genreConfig"

definition select_genre :: "string \<Rightarrow> creator \<Rightarrow> creator" where
  "select_genre key st = st\<lparr>formData := (formData st)\<lparr>genre := key\<rparr>\<rparr>"

subsection \<open>Normalising an error payload\<close>

text \<open>\<open>error.response?.data?.detail\<close>\<close>

definition error_detail :: "(nat \<times> jsval) option \<Rightarrow> jsval" where
  "error_detail response =
     (case response of
        None \<Rightarrow> JUndefined
      | Some r \<Rightarrow> opt_prop (snd r) ''detail'')"

text \<open>
  The callback of \<open>detail.map\<close>.  Reading \<open>err.msg\<close> of \<open>null\<close> throws, and so does
  \<open>err.loc.join\<close> when \<open>loc\<close> is truthy but not an array.
\<close>

definition error_item_text :: "jsval \<Rightarrow> js_error + string" where
  "error_item_text err =
     (case err of
        JStr t \<Rightarrow> Inr t
      | _ \<Rightarrow>
          if nullish err then Inl TypeError
          else if truthy (get_prop err ''msg'') then
            (if truthy (get_prop err ''loc'') then
               (case get_prop err ''loc'' of
                  JArr ls \<Rightarrow> Inr (array_join ''.'' ls @ '': '' @ ToString (get_prop err ''msg''))
                | _ \<Rightarrow> Inl TypeError)
             else Inr (ToString (get_prop err ''msg'')))
          else Inr (case JSON_stringify err of None \<Rightarrow> [] | Some t \<Rightarrow> t))"

text \<open>\<open>detail.map(...)\<close>: the first callback that throws ends the whole expression.\<close>

fun map_items :: "jsval list \<Rightarrow> js_error + string list" where
  "map_items [] = Inr []"
| "map_items (e # es) =
     (case error_item_text e of
        Inl x \<Rightarrow> Inl x
      | Inr t \<Rightarrow> (case map_items es of Inl x \<Rightarrow> Inl x | Inr ts \<Rightarrow> Inr (t # ts)))"

definition default_message :: string where
  "default_message = ''Failed to create project''"

text \<open>The \<open>catch\<close> block of \<open>handleSubmit\<close>, up to the value of \<open>message\<close>.\<close>

definition submit_error_message :: "(nat \<times> jsval) option \<Rightarrow> js_error + string" where
  "submit_error_message response =
     (let detail = error_detail response in
      if truthy detail then
        (case detail of
           JStr t \<Rightarrow> Inr t
         | JArr errs \<Rightarrow>
             (case map_items errs of Inl x \<Rightarrow> Inl x | Inr ts \<Rightarrow> Inr (join '', '' ts))
         | JObj kvs \<Rightarrow> Inr (case JSON_stringify detail of None \<Rightarrow> [] | Some t \<Rightarrow> t)
         | _ \<Rightarrow> Inr default_message)
      else Inr default_message)"


text \<open>
  An element of a \<open>detail\<close> array that the callback turns into text without throwing:
  it is not \<open>null\<close>, and if it carries both a \<open>msg\<close> and a \<open>loc\<close>, the \<open>loc\<close> is an array,
  as the path of a field-level validation error is.
\<close>

definition is_array :: "jsval \<Rightarrow> bool" where
  "is_array v = (case v of JArr xs \<Rightarrow> True | _ \<Rightarrow> False)"

definition renderable_item :: "jsval \<Rightarrow> bool" where
  "renderable_item e =
     (\<not> nullish e
      \<and> (truthy (get_prop e ''msg'') \<and> truthy (get_prop e ''loc'')
           \<longrightarrow> is_array (get_prop e ''loc'')))"

subsection \<open>Submitting the form\<close>

definition toast_error :: "string \<Rightarrow> creator \<Rightarrow> creator" where
  "toast_error m st = st\<lparr>toasts := toasts st @ [ToastError (JStr m)]\<rparr>"

text \<open>The body of \<open>POST /api/projects\<close>.\<close>

definition projectData :: "creator \<Rightarrow> jsval" where
  "projectData st =
     (let fd = formData st in
      JObj [(''title'', JStr (title fd)),
            (''author'', js_or (JStr (author fd)) (JStr [])),
            (''description'', js_or (JStr (description fd)) (JStr [])),
            (''genre'', JStr (genre fd)),
            (''target_language'', JStr (target_language fd)),
            (''voice_style'', JStr ''neutral''),
            (''content'',
               if activeTab st = UploadTab then content fd
               else js_or (js_or (opt_prop (uploadedFile st) ''extracted_text'') (JStr (prompt fd)))
                      (JStr []))])"

text \<open>\<open>formData.genre === 'audiobook' && uploadedFile?.extracted_text\<close>\<close>

definition isUploadedAudiobook :: "creator \<Rightarrow> jsval" where
  "isUploadedAudiobook st =
     (if genre (formData st) = ''audiobook'' then opt_prop (uploadedFile st) ''extracted_text''
      else JBool False)"

text \<open>The body of \<open>POST /api/ai/generate-book\<close>.\<close>

definition generateRequest :: "jsval \<Rightarrow> creator \<Rightarrow> jsval" where
  "generateRequest pid st =
     (let fd = formData st; up = truthy (isUploadedAudiobook st) in
      JObj [(''project_id'', pid),
            (''prompt'', if up then JStr [] else JStr (prompt fd)),
            (''uploaded_content'',
               if up then get_prop (uploadedFile st) ''extracted_text'' else JNull),
            (''genre'', JStr (genre fd)),
            (''target_language'', JStr (target_language fd)),
            (''length'', JStr (length_field fd)),
            (''style'', JStr (style fd))])"

text \<open>The \<open>catch\<close> and \<open>finally\<close> blocks: one error toast, unless the \<open>catch\<close> block
  itself throws.\<close>

definition submit_failed :: "(nat \<times> jsval) option \<Rightarrow> creator \<Rightarrow> creator completion" where
  "submit_failed response st =
     (case submit_error_message response of
        Inl x \<Rightarrow> Threw x (st\<lparr>creator_loading := False\<rparr>)
      | Inr m \<Rightarrow> Returned ((toast_error m st)\<lparr>creator_loading := False\<rparr>))"

text \<open>
  The \<open>try\<close> block.  The two arguments are what the server answers to the first and to
  the second call, should they be issued.  A nullish body of the first answer makes
  \<open>response.data.project_id\<close> throw inside the \<open>try\<close>; that error has no \<open>response\<close>.
\<close>

definition submit_project :: "http_result \<Rightarrow> http_result \<Rightarrow> creator \<Rightarrow> creator completion" where
  "submit_project create_result generate_result st =
     (let st1 = st\<lparr>creator_loading := True,
                    calls := calls st @ [Post ''/api/projects'' (projectData st)]\<rparr>
      in case create_result of
           Rejected response \<Rightarrow> submit_failed response st1
         | Resolved data \<Rightarrow>
             if nullish data then submit_failed None st1
             else
               (let pid = get_prop data ''project_id'' in
                if activeTab st = PromptTab
                   \<or> (activeTab st = UploadTab \<and> genre (formData st) = ''audiobook'')
                then
                  (let st2 = st1\<lparr>calls := calls st1 @
                               [Post ''/api/ai/generate-book'' (generateRequest pid st)]\<rparr>
                   in case generate_result of
                        Rejected response \<Rightarrow> submit_failed response st2
                      | Resolved body \<Rightarrow>
                          Returned (st2\<lparr>toasts := toasts st2 @
                                        [ToastSuccess
                                          (if truthy (isUploadedAudiobook st)
                                             then ''Project created! Audio conversion started.''
                                           else ''Project created! AI generation started.'')],
                                      navigated := navigated st2 @
                                        [''/progress/'' @ ToString pid],
                                      creator_loading := False\<rparr>))
                else
                  Returned (st1\<lparr>toasts := toasts st1 @
                                  [ToastSuccess ''Project created successfully!''],
                                navigated := navigated st1 @ [''/project/'' @ ToString pid],
                                creator_loading := False\<rparr>)))"

text \<open>
  \<open>handleSubmit\<close>: the client-side checks, in the source's order, then the \<open>try\<close> block.
  \<open>formData.content.trim()\<close> throws when \<open>content\<close> is not a string.
\<close>

definition handleSubmit :: "http_result \<Rightarrow> http_result \<Rightarrow> creator \<Rightarrow> creator completion" where
  "handleSubmit create_result generate_result st =
     (let fd = formData st in
      if trim (title fd) = [] then Returned (toast_error ''Please enter a project title'' st)
      else if genre fd = ''audiobook'' \<and> activeTab st = PromptTab
              \<and> \<not> truthy (uploadedFile st) \<and> trim (prompt fd) = []
        then Returned (toast_error
               ''Please either upload a manuscript or enter a prompt for your audiobook'' st)
      else if \<not> (genre fd = ''audiobook'' \<and> activeTab st = PromptTab)
              \<and> activeTab st = PromptTab \<and> trim (prompt fd) = []
        then Returned (toast_error ''Please enter a prompt for book generation'' st)
      else if activeTab st = UploadTab then
        (case content fd of
           JStr c \<Rightarrow>
             if trim c = [] then Returned (toast_error ''Please upload a file or enter content'' st)
             else submit_project create_result generate_result st
         | _ \<Rightarrow> Threw TypeError st)
      else submit_project create_result generate_result st)"

subsection \<open>The upload zone\<close>

text \<open>
  The file name without its last extension, as the \<open>replace\<close> call computes it: a final
  dot followed by one or more characters that are neither a slash nor a dot is removed.
\<close>

definition strip_extension :: "string \<Rightarrow> string" where
  "strip_extension n =
     (let r = rev n;
          ext = takeWhile (\<lambda>c. c \<noteq> CHR ''/'' \<and> c \<noteq> CHR ''.'') r;
          rest = dropWhile (\<lambda>c. c \<noteq> CHR ''/'' \<and> c \<noteq> CHR ''.'') r
      in case rest of
           [] \<Rightarrow> n
         | c # before \<Rightarrow> if c = CHR ''.'' \<and> ext \<noteq> [] then rev before else n)"

text \<open>
  \<open>onDrop\<close>, with the server's answer to the upload.  Without a first accepted file it
  returns at once.  A nullish body makes the state updater throw on
  \<open>response.data.extracted_text\<close>.
\<close>

definition onDrop :: "dropped_file list \<Rightarrow> http_result \<Rightarrow> creator \<Rightarrow> creator completion" where
  "onDrop acceptedFiles upload_result st =
     (case acceptedFiles of
        [] \<Rightarrow> Returned st
      | f # others \<Rightarrow>
          (let st1 = st\<lparr>creator_loading := True,
                        calls := calls st @ [PostFile ''/api/files/upload'' f]\<rparr>
           in case upload_result of
                Resolved data \<Rightarrow>
                  (let st2 = st1\<lparr>uploadedFile := data,
                                 toasts := toasts st1 @
                                   [ToastSuccess ''File uploaded and processed successfully!''],
                                 creator_loading := False\<rparr>
                   in if nullish data then Threw TypeError st2
                      else Returned (st2\<lparr>formData := (formData st2)
                             \<lparr>content := get_prop data ''extracted_text'',
                              title := (if title (formData st2) \<noteq> [] then title (formData st2)
                                        else strip_extension (file_name f))\<rparr>\<rparr>))
              | Rejected response \<Rightarrow>
                  Returned (st1\<lparr>toasts := toasts st1 @
                                  [ToastError (js_or (error_detail response)
                                                 (JStr ''File upload failed''))],
                                creator_loading := False\<rparr>)))"

text \<open>The options handed to \<open>useDropzone\<close>.\<close>

record dropzone_options =
  accept :: "(string \<times> string list) list"
  maxSize :: nat
  multiple :: bool

definition dropzone :: dropzone_options where
  "dropzone =
     \<lparr> accept =
         [(''text/plain'', [''.txt'']),
          (''application/pdf'', [''.pdf'']),
          (''application/vnd.openxmlformats-officedocument.wordprocessingml.document'',
           [''.docx''])],
       maxSize = 25 * 1024 * 1024,
       multiple = False \<rparr>"

definition ends_with :: "string \<Rightarrow> string \<Rightarrow> bool" where
  "ends_with e s = (length e \<le> length s \<and> drop (length s - length e) s = e)"

text \<open>
  Modelled from the spec: the filter of the \<open>react-dropzone\<close> library is not part of the
  sources.  The spec has the upload zone accept a single file, size-capped and
  type-restricted, and reject files above the cap and outside the listed types before
  any network call.  A file has a listed type when its MIME type is a key of \<open>accept\<close> or
  its name ends with one of the listed extensions.
\<close>

definition type_accepted :: "dropzone_options \<Rightarrow> dropped_file \<Rightarrow> bool" where
  "type_accepted opts f =
     (\<exists>entry \<in> set (accept opts).
        file_type f = fst entry \<or> (\<exists>e \<in> set (snd entry). ends_with e (file_name f)))"

text \<open>
  Modelled from the spec: the library hands \<open>onDrop\<close> the files that pass the type and
  size restrictions; when only a single file is allowed and more than one passes,
  none is handed on.
\<close>

definition accepted_files :: "dropzone_options \<Rightarrow> dropped_file list \<Rightarrow> dropped_file list" where
  "accepted_files opts fs =
     (let ok = filter (\<lambda>f. type_accepted opts f \<and> file_size f \<le> maxSize opts) fs
      in if \<not> multiple opts \<and> length ok > 1 then [] else ok)"

text \<open>The user offers files to the zone: the library filters, then calls \<open>onDrop\<close>.\<close>

definition drop_files :: "dropped_file list \<Rightarrow> http_result \<Rightarrow> creator \<Rightarrow> creator completion" where
  "drop_files fs upload_result st = onDrop (accepted_files dropzone fs) upload_result st"


section \<open>Project store (the \<open>public.projects\<close> table of the database schema)\<close>

text \<open>The \<open>CHECK\<close> constraints of the \<open>genre\<close> and \<open>status\<close> columns.\<close>

definition projects_genre_check :: "string \<Rightarrow> bool" where
  "projects_genre_check g = (g \<in> set [''ebook'', ''novel'', ''kids_story'', ''coloring_book''])"

definition projects_status_check :: "string \<Rightarrow> bool" where
  "projects_status_check s = (s \<in> set [''draft'', ''processing'', ''completed'', ''failed''])"

text \<open>
  A row to insert, with the columns the front end supplies; \<open>None\<close> is SQL \<open>NULL\<close> or an
  omitted column.  \<open>title\<close> and \<open>genre\<close> are \<open>NOT NULL\<close> without a default; \<open>status\<close>
  defaults to \<open>'draft'\<close>.  A \<open>CHECK\<close> passes on \<open>NULL\<close>.
\<close>

record project_row =
  row_title :: "string option"
  row_genre :: "string option"
  row_status :: "string option"
  row_content :: "string option"

datatype db_error = NotNullViolation string | CheckViolation string

definition projects_insert :: "project_row \<Rightarrow> project_row list \<Rightarrow> db_error + project_row list" where
  "projects_insert row table =
     (let row1 = (case row_status row of
                    None \<Rightarrow> row\<lparr>row_status := Some ''draft''\<rparr>
                  | Some s \<Rightarrow> row)
      in case row_title row1 of
           None \<Rightarrow> Inl (NotNullViolation ''title'')
         | Some t \<Rightarrow>
             (case row_genre row1 of
                None \<Rightarrow> Inl (NotNullViolation ''genre'')
              | Some g \<Rightarrow>
                  if \<not> projects_genre_check g then Inl (CheckViolation ''genre'')
                  else if \<not> (case row_status row1 of
                                None \<Rightarrow> True
                              | Some s \<Rightarrow> projects_status_check s)
                    then Inl (CheckViolation ''status'')
                  else Inr (table @ [row1])))"

section \<open>Project Editor (\<open>components/ProjectEditor.js\<close>)\<close>

record editor =
  project :: jsval
  editor_loading :: bool
  content_state :: jsval
  title_state :: jsval
  author_state :: jsval
  description_state :: jsval
  editor_toasts :: "toast list"
  editor_navigated :: "string list"

definition initial_editor :: editor where
  "initial_editor =
     \<lparr> project = JNull, editor_loading = True, content_state = JStr [], title_state = JStr [],
       author_state = JStr [], description_state = JStr [],
       editor_toasts = [], editor_navigated = [] \<rparr>"

text \<open>
  \<open>fetchProject\<close> from its \<open>await\<close> on.  A nullish body is stored by \<open>setProject\<close>, then
  \<open>projectData.generated_content\<close> throws inside the \<open>try\<close>.
\<close>

definition load_failed :: "editor \<Rightarrow> editor" where
  "load_failed st =
     st\<lparr>editor_toasts := editor_toasts st @ [ToastError (JStr ''Failed to load project'')],
        editor_navigated := editor_navigated st @ [''/dashboard''],
        editor_loading := False\<rparr>"

definition fetchProject_settle :: "http_result \<Rightarrow> editor \<Rightarrow> editor" where
  "fetchProject_settle r st =
     (case r of
        Resolved data \<Rightarrow>
          if nullish data then load_failed (st\<lparr>project := data\<rparr>)
          else
            st\<lparr>project := data,
               content_state :=
                 js_or (js_or (get_prop data ''generated_content'') (get_prop data ''content''))
                   (JStr []),
               title_state := js_or (get_prop data ''title'') (JStr []),
               author_state := js_or (get_prop data ''author'') (JStr []),
               description_state := js_or (get_prop data ''description'') (JStr []),
               editor_loading := False\<rparr>
      | Rejected response \<Rightarrow> load_failed st)"


section \<open>Properties of the Progress Tracker\<close>

subsection \<open>The event loop\<close>

lemma fire_interval_fields:
  "requests (fire_interval d st) = requests st @ [(max (now st) d, progress_url (projectId st))]"
  "interval (fire_interval d st) = Some (d + 2000)"
  "timeouts (fire_interval d st) = timeouts st"
  "now (fire_interval d st) = max (now st) d"
  "projectId (fire_interval d st) = projectId st"
  "navigations (fire_interval d st) = navigations st"
  by (simp_all add: fire_interval_def fetchProgress_request_def)

lemma poll_count_step:
  "d \<le> T \<Longrightarrow> (if d + 2000 \<le> T then Suc ((T - (d + 2000)) div 2000) else 0) = (T - d) div (2000::nat)"
proof (cases "d + 2000 \<le> T")
  case True
  assume "d \<le> T"
  have "T - d = (T - (d + 2000)) + 2000" using True by simp
  then have "(T - d) div 2000 = Suc ((T - (d + 2000)) div 2000)"
    by (simp only: div_add_self2)
  with True show ?thesis by simp
next
  case False
  assume "d \<le> T"
  with False have "T - d < 2000" by simp
  with False show ?thesis by simp
qed

lemma polling_requests:
  "timeouts st = [] \<Longrightarrow> interval st = Some d \<Longrightarrow> now st \<le> d \<Longrightarrow>
   requests (run_until T st) =
     requests st @ map (\<lambda>k. (d + 2000 * k, progress_url (projectId st)))
       [0..<(if d \<le> T then Suc ((T - d) div 2000) else 0)]"
proof (induction T st arbitrary: d rule: run_until.induct)
  case (1 T st)
  have nt: "next_timer st = Some (d, None)"
    using "1.prems" by (simp add: next_timer_def)
  show ?case
  proof (cases "d \<le> T")
    case False
    then show ?thesis
      using nt by (simp add: run_until.simps[of T st])
  next
    case True
    let ?st' = "fire_interval d st"
    have fire_eq: "fire (d, None) st = ?st'" by (simp add: fire_def)
    have ih: "requests (run_until T ?st') =
       requests ?st' @ map (\<lambda>k. (d + 2000 + 2000 * k, progress_url (projectId ?st')))
         [0..<(if d + 2000 \<le> T then Suc ((T - (d + 2000)) div 2000) else 0)]"
      using "1.IH"[OF nt _ , of "d + 2000"] True "1.prems"
      by (simp add: fire_eq fire_interval_fields)
    have step: "run_until T st = run_until T ?st'"
      using nt True by (simp add: run_until.simps[of T st] fire_eq)
    have "map (\<lambda>k. (d + 2000 * k, progress_url (projectId st))) [0..<Suc ((T - d) div 2000)]
        = (d, progress_url (projectId st)) #
          map (\<lambda>k. (d + 2000 + 2000 * k, progress_url (projectId st))) [0..<(T - d) div 2000]"
      by (simp add: map_upt_Suc del: upt_Suc)
    then show ?thesis
      using True "1.prems" ih poll_count_step[OF True]
      by (simp add: step fire_interval_fields max_def del: upt_Suc)
  qed
qed


lemma fire_timeout_fields:
  "requests (fire_timeout t st) = requests st"
  "interval (fire_timeout t st) = None"
  "timeouts (fire_timeout t st) = remove1 t (timeouts st)"
  "projectId (fire_timeout t st) = projectId st"
  "error (fire_timeout t st) = error st"
  "navigations (fire_timeout t st) = navigations st @ [(max (now st) (fst t), snd t)]"
  by (simp_all add: fire_timeout_def navigate_def unmount_def)

lemma next_timer_unmounted:
  "interval st = None \<Longrightarrow> next_timer st = Some t \<Longrightarrow>
     (\<exists>path. snd t = Some path \<and> earliest (timeouts st) = Some (fst t, path))"
  by (auto simp: next_timer_def split: option.splits)

lemma run_until_unmounted:
  "interval st = None \<Longrightarrow>
     requests (run_until T st) = requests st \<and> interval (run_until T st) = None"
proof (induction T st rule: run_until.induct)
  case (1 T st)
  show ?case
  proof (cases "next_timer st")
    case None
    then show ?thesis using "1.prems" by (simp add: run_until.simps[of T st])
  next
    case (Some t)
    show ?thesis
    proof (cases "fst t \<le> T")
      case False
      then show ?thesis using Some "1.prems" by (simp add: run_until.simps[of T st])
    next
      case True
      obtain path where p: "snd t = Some path"
        using next_timer_unmounted[OF "1.prems" Some] by blast
      have f: "fire t st = fire_timeout (fst t, path) st"
        by (simp add: fire_def p)
      have "requests (run_until T (fire t st)) = requests (fire t st)
          \<and> interval (run_until T (fire t st)) = None"
        using "1.IH"[OF Some True] by (simp add: f fire_timeout_fields)
      then show ?thesis
        using Some True by (simp add: run_until.simps[of T st] f fire_timeout_fields)
    qed
  qed
qed

lemma run_until_error: "error (run_until T st) = error st"
proof (induction T st rule: run_until.induct)
  case (1 T st)
  show ?case
  proof (cases "next_timer st")
    case None
    then show ?thesis by (simp add: run_until.simps[of T st])
  next
    case (Some t)
    have "error (fire t st) = error st"
      by (simp add: fire_def fire_interval_def fetchProgress_request_def fire_timeout_fields
          split: option.splits)
    then show ?thesis
      using Some "1.IH"[OF Some] by (simp add: run_until.simps[of T st])
  qed
qed

lemma mount_fields:
  "pid \<noteq> [] \<Longrightarrow> requests (mount (initial pid)) = [(0, progress_url pid)]"
  "pid \<noteq> [] \<Longrightarrow> interval (mount (initial pid)) = Some 2000"
  "timeouts (mount (initial pid)) = []"
  "now (mount (initial pid)) = 0"
  "projectId (mount (initial pid)) = pid"
  by (simp_all add: mount_def initial_def fetchProgress_request_def)

lemma settle_fields:
  "interval (fetchProgress_settle r st) = interval st"
  "requests (fetchProgress_settle r st) = requests st"
  "navigations (fetchProgress_settle r st) = navigations st"
  "projectId (fetchProgress_settle r st) = projectId st"
  "now (fetchProgress_settle r st) = now st"
  by (simp_all add: fetchProgress_settle_def Let_def split: http_result.splits)


lemma earliest_None: "earliest ts = None \<longleftrightarrow> ts = []"
  by (cases ts) (auto split: option.splits)

lemma earliest_least:
  "earliest ts = Some t \<Longrightarrow> t \<in> set ts \<and> (\<forall>u \<in> set ts. fst t \<le> fst u)"
proof (induction ts arbitrary: t)
  case Nil
  then show ?case by simp
next
  case (Cons a ts)
  then show ?case
    by (cases "earliest ts") (auto simp: earliest_None split: if_splits)
qed

lemma mset_filter_remove1:
  "t \<in> set ts \<Longrightarrow> P t \<Longrightarrow>
     mset (filter P ts) = add_mset t (mset (filter P (remove1 t ts)))"
  by (induction ts) auto

lemma run_until_navigations:
  "\<forall>u \<in> set (timeouts st). now st \<le> fst u \<Longrightarrow>
     mset (navigations (run_until T st)) =
       mset (navigations st) + mset (filter (\<lambda>u. fst u \<le> T) (timeouts st))"
proof (induction T st rule: run_until.induct)
  case (1 T st)
  show ?case
  proof (cases "next_timer st")
    case None
    then have "timeouts st = []"
      by (cases "timeouts st") (auto simp: next_timer_def split: option.splits if_splits)
    with None show ?thesis by (simp add: run_until.simps[of T st])
  next
    case (Some t)
    show ?thesis
    proof (cases "snd t")
      case None
      have i: "interval st = Some (fst t)"
        using Some None by (auto simp: next_timer_def split: option.splits if_splits)
      have least: "\<forall>u \<in> set (timeouts st). fst t \<le> fst u"
        using Some None earliest_least[of "timeouts st"]
        by (auto simp: next_timer_def earliest_None split: option.splits if_splits)
      have f: "fire t st = fire_interval (fst t) st"
        by (simp add: fire_def None)
      show ?thesis
      proof (cases "fst t \<le> T")
        case False
        with least have "filter (\<lambda>u. fst u \<le> T) (timeouts st) = []"
          by (auto simp: filter_empty_conv)
        with False Some show ?thesis by (simp add: run_until.simps[of T st])
      next
        case True
        have "mset (navigations (run_until T (fire t st))) =
            mset (navigations (fire t st)) +
            mset (filter (\<lambda>u. fst u \<le> T) (timeouts (fire t st)))"
          using "1.IH"[OF Some True] "1.prems" least
          by (simp add: f fire_interval_fields)
        with True Some show ?thesis
          by (simp add: run_until.simps[of T st] f fire_interval_fields)
      qed
    next
      case (Some path)
      note sp = Some
      have e: "earliest (timeouts st) = Some (fst t, path)"
        using \<open>next_timer st = Some t\<close> sp
        by (auto simp: next_timer_def split: option.splits if_splits)
      have t_eq: "t = (fst t, Some path)" using sp by (cases t) simp
      have mem: "(fst t, path) \<in> set (timeouts st)"
        and least: "\<forall>u \<in> set (timeouts st). fst t \<le> fst u"
        using earliest_least[OF e] by auto
      have f: "fire t st = fire_timeout (fst t, path) st"
        by (simp add: fire_def sp)
      have nw: "max (now st) (fst t) = fst t"
        using "1.prems" mem by fastforce
      show ?thesis
      proof (cases "fst t \<le> T")
        case False
        with least have "filter (\<lambda>u. fst u \<le> T) (timeouts st) = []"
          by (auto simp: filter_empty_conv)
        with False \<open>next_timer st = Some t\<close> show ?thesis
          by (simp add: run_until.simps[of T st])
      next
        case True
        have inv: "\<forall>u \<in> set (timeouts (fire t st)). now (fire t st) \<le> fst u"
          using least nw
          by (auto simp: f fire_timeout_def navigate_def unmount_def dest: notin_set_remove1)
        have "mset (navigations (run_until T (fire t st))) =
            mset (navigations (fire t st)) +
            mset (filter (\<lambda>u. fst u \<le> T) (timeouts (fire t st)))"
          using "1.IH"[OF \<open>next_timer st = Some t\<close> True inv] .
        moreover have "mset (filter (\<lambda>u. fst u \<le> T) (timeouts st)) =
            add_mset (fst t, path)
              (mset (filter (\<lambda>u. fst u \<le> T) (remove1 (fst t, path) (timeouts st))))"
          using mem True by (intro mset_filter_remove1) simp_all
        ultimately show ?thesis
          using True \<open>next_timer st = Some t\<close>
          by (simp add: run_until.simps[of T st] f fire_timeout_fields nw)
      qed
    qed
  qed
qed


lemma render_failed:
  "render (fetchProgress_settle (Rejected response) st) =
     ErrorScreen (if map_option fst response = Some 404
                  then ''Progress tracking not found for this project''
                  else ''Failed to fetch progress'')"
  by (simp add: render_def fetchProgress_settle_def)

lemmas tracker_eval =
  run_until.simps next_timer_def fire_def fire_interval_def fire_timeout_def navigate_def
  unmount_def mount_def initial_def fetchProgress_request_def fetchProgress_settle_def
  progress_url_def project_path_def nullish_def

lemmas render_eval =
  render_def percentage_text_def bar_width_def percentage_value_def js_or_def opt_prop_def
  int_to_string_def nat_to_string.simps digit_char_def

subsection \<open>Polling\<close>

lemma polling_mount: "pid \<noteq> [] \<Longrightarrow> polling pid (mount (initial pid))"
  by (simp add: polling_def mount_def initial_def fetchProgress_request_def)

lemma polling_settle:
  "polling pid st \<Longrightarrow> \<not> schedules_navigation r \<Longrightarrow> polling pid (fetchProgress_settle r st)"
  by (cases r) (auto simp: polling_def fetchProgress_settle_def Let_def)

lemma div_idle:
  assumes "now' < 2000 * Suc (n div 2000)" "n \<le> now'"
  shows "now' div 2000 = n div (2000::nat)"
proof -
  have "n div 2000 \<le> now' div 2000"
    using assms(2) by (rule div_le_mono)
  moreover have "now' div 2000 < Suc (n div 2000)"
    using assms(1) by (simp add: div_less_iff_less_mult mult.commute)
  ultimately show ?thesis by simp
qed

lemma polling_run_until:
  "polling pid st \<Longrightarrow>
     polling pid (run_until T st) \<and> now (run_until T st) = max (now st) T"
proof (induction T st rule: run_until.induct)
  case (1 T st)
  let ?d = "2000 * Suc (now st div 2000)"
  have nt: "next_timer st = Some (?d, None)"
    using "1.prems" by (simp add: polling_def next_timer_def)
  have later: "now st < ?d"
    using div_mult_mod_eq[of "now st" 2000] mod_less_divisor[of 2000 "now st"] by simp
  show ?case
  proof (cases "?d \<le> T")
    case False
    let ?st' = "st\<lparr>now := max (now st) T\<rparr>"
    have "max (now st) T div 2000 = now st div 2000"
      using False later by (intro div_idle) simp_all
    then have "polling pid ?st'"
      using "1.prems" by (simp add: polling_def)
    then show ?thesis
      using nt False by (simp add: run_until.simps[of T st])
  next
    case True
    let ?st' = "fire_interval ?d st"
    have f: "fire (?d, None) st = ?st'" by (simp add: fire_def)
    have m: "max (now st) ?d = ?d" using later by simp
    have q: "?d div 2000 = Suc (now st div 2000)" by simp
    have p: "polling pid ?st'"
      using "1.prems" m q
      by (simp add: polling_def fire_interval_def fetchProgress_request_def del: upt_Suc)
        (simp add: upt_Suc)
    have n: "now ?st' = ?d"
      using m by (simp add: fire_interval_def fetchProgress_request_def)
    have "polling pid (fire (?d, None) st)"
      using p by (simp only: f)
    moreover have "fst (?d, None :: string option) \<le> T"
      using True by simp
    ultimately have "polling pid (run_until T (fire (?d, None) st))
        \<and> now (run_until T (fire (?d, None) st)) = max (now (fire (?d, None) st)) T"
      by (rule "1.IH"[OF nt, rotated])
    then have "polling pid (run_until T ?st') \<and> now (run_until T ?st') = max (now ?st') T"
      by (simp only: f)
    then show ?thesis
      using nt True n later by (simp add: run_until.simps[of T st] fire_def max_def)
  qed
qed

lemma polling_exec:
  "polling pid st \<Longrightarrow> \<forall>te \<in> set es. fst te \<le> T \<and> quiet (snd te) \<Longrightarrow> now st \<le> T \<Longrightarrow>
     polling pid (exec es st) \<and> now (exec es st) \<le> T"
proof (induction es arbitrary: st)
  case Nil
  then show ?case by simp
next
  case (Cons te es)
  obtain t e where te: "te = (t, e)" by (cases te)
  with Cons.prems obtain r where e: "e = Settle r" "\<not> schedules_navigation r" and t: "t \<le> T"
    by (cases e) auto
  let ?st' = "fetchProgress_settle r (run_until t st)"
  have "polling pid (run_until t st)" "now (run_until t st) = max (now st) t"
    using polling_run_until[OF Cons.prems(1), of t] by simp_all
  then have "polling pid ?st'" "now ?st' \<le> T"
    using e(2) t Cons.prems(3) by (simp_all add: polling_settle settle_fields)
  then have "polling pid (exec es ?st') \<and> now (exec es ?st') \<le> T"
    using Cons.prems(2) by (intro Cons.IH) simp_all
  then show ?case
    by (simp add: te e(1))
qed

lemma unmounted_exec:
  "interval st = None \<Longrightarrow> requests (exec es st) = requests st \<and> interval (exec es st) = None"
proof (induction es arbitrary: st)
  case Nil
  then show ?case by simp
next
  case (Cons te es)
  obtain t e where te: "te = (t, e)" by (cases te)
  have r: "requests (run_until t st) = requests st" "interval (run_until t st) = None"
    using run_until_unmounted[OF Cons.prems, of t] by simp_all
  have "requests (handle e (run_until t st)) = requests st
      \<and> interval (handle e (run_until t st)) = None"
    using r by (cases e) (simp_all add: settle_fields unmount_def navigate_def)
  then show ?case
    using Cons.IH[of "handle e (run_until t st)"] by (simp add: te)
qed

text \<open>
  Claim C2.  A tracker mounted with a project identifier issues exactly one progress
  fetch at mount (time 0).  In every run up to a time \<open>T\<close> in which requests settle, in
  whatever way short of completion, the fetches issued are that one and one identical
  fetch at every multiple of 2000 ms.  Unmounting cancels the interval, and whatever
  happens afterwards, no further fetch is issued.
\<close>

theorem polling_protocol:
  assumes "pid \<noteq> []"
  shows "requests (mount (initial pid)) = [(0, progress_url pid)]
       \<and> ((\<forall>te \<in> set es. fst te \<le> T \<and> quiet (snd te)) \<longrightarrow>
            requests (run_until T (exec es (mount (initial pid)))) =
              map (\<lambda>k. (2000 * k, progress_url pid)) [0..<Suc (T div 2000)])
       \<and> interval (unmount st) = None
       \<and> requests (run_until T' (exec es' (unmount st))) = requests st"
proof -
  have a: "requests (run_until T (exec es (mount (initial pid)))) =
        map (\<lambda>k. (2000 * k, progress_url pid)) [0..<Suc (T div 2000)]"
    if q: "\<forall>te \<in> set es. fst te \<le> T \<and> quiet (snd te)"
  proof -
    let ?st = "exec es (mount (initial pid))"
    have "polling pid ?st \<and> now ?st \<le> T"
      using polling_mount[OF assms] q by (intro polling_exec) (simp_all add: mount_fields)
    then have "polling pid (run_until T ?st)" "now (run_until T ?st) = T"
      using polling_run_until[of pid ?st T] by simp_all
    then show ?thesis by (simp add: polling_def)
  qed
  have u: "interval (unmount st) = None" "requests (unmount st) = requests st"
    by (simp_all add: unmount_def)
  have b: "requests (run_until T' (exec es' (unmount st))) = requests st"
    using unmounted_exec[OF u(1), of es'] run_until_unmounted[of "exec es' (unmount st)" T'] u(2)
    by simp
  show ?thesis
    using assms a b u(1) by (simp add: mount_fields)
qed

theorem polling_protocol_witness:
  "''p'' \<noteq> []
   \<and> fst (300::nat, Settle (Resolved (JObj [(''overall_progress'', JNum 40)]))) \<le> (4000::nat)
   \<and> quiet (Settle (Resolved (JObj [(''overall_progress'', JNum 40)])))
   \<and> quiet (Settle (Rejected None))
   \<and> requests (run_until 4000
         (exec [(300, Settle (Resolved (JObj [(''overall_progress'', JNum 40)]))),
                (2500, Settle (Rejected None))] (mount (initial ''p'')))) =
       [(0, ''/api/progress/p''), (2000, ''/api/progress/p''), (4000, ''/api/progress/p'')]
   \<and> requests (run_until 9000 (exec [(4500, Settle (Rejected None))]
         (unmount (run_until 4000 (mount (initial ''p'')))))) =
       [(0, ''/api/progress/p''), (2000, ''/api/progress/p''), (4000, ''/api/progress/p'')]"
  using polling_protocol[of "''p''"
          "[(300, Settle (Resolved (JObj [(''overall_progress'', JNum 40)]))),
            (2500, Settle (Rejected None))]" 4000
          "run_until 4000 (mount (initial ''p''))" 9000 "[(4500, Settle (Rejected None))]"]
        polling_protocol[of "''p''" "[]" 4000 "mount (initial ''p'')" 0 "[]"]
  by (simp add: progress_url_def upt_conv_Cons nullish_def)

subsection \<open>Completion\<close>

text \<open>
  Claim C1, as the source has it.  Every response whose \<open>overall_progress\<close> is exactly 100
  registers one timer of its own, due 2000 ms after the response is handled, whose
  callback navigates to \<open>/project/{projectId}\<close>; any other response and any failure
  registers none.  Every registered timer fires: up to time \<open>T\<close> the calls of \<open>navigate\<close>
  are those made before and one for each timer due by then, at its due time.  So \<open>k\<close>
  such responses lead to \<open>k\<close> navigations.
\<close>

theorem completion_schedules_navigation:
  "(\<not> nullish d \<and> get_prop d ''overall_progress'' = JNum 100 \<longrightarrow>
      timeouts (fetchProgress_settle (Resolved d) st) =
        timeouts st @ [(now st + 2000, project_path (projectId st))])
   \<and> (get_prop d ''overall_progress'' \<noteq> JNum 100 \<longrightarrow>
      timeouts (fetchProgress_settle (Resolved d) st) = timeouts st)
   \<and> timeouts (fetchProgress_settle (Rejected r) st) = timeouts st
   \<and> ((\<forall>u \<in> set (timeouts st). now st \<le> fst u) \<longrightarrow>
      mset (navigations (run_until T st)) =
        mset (navigations st) + mset (filter (\<lambda>u. fst u \<le> T) (timeouts st)))"
  using run_until_navigations[of st T]
  by (simp add: fetchProgress_settle_def Let_def)

theorem completion_schedules_navigation_witness:
  "\<not> nullish (JObj [(''overall_progress'', JNum 100)])
   \<and> get_prop (JObj [(''overall_progress'', JNum 100)]) ''overall_progress'' = JNum 100
   \<and> timeouts (fetchProgress_settle (Resolved (JObj [(''overall_progress'', JNum 100)]))
        (run_until 300 (mount (initial ''p'')))) = [(2300, ''/project/p'')]
   \<and> get_prop (JObj [(''overall_progress'', JNum 99)]) ''overall_progress'' \<noteq> JNum 100
   \<and> timeouts (fetchProgress_settle (Resolved (JObj [(''overall_progress'', JNum 99)]))
        (run_until 300 (mount (initial ''p'')))) = []
   \<and> now (fetchProgress_settle (Resolved (JObj [(''overall_progress'', JNum 100)]))
        (run_until 300 (mount (initial ''p'')))) = 300
   \<and> mset (navigations (run_until 2300 (fetchProgress_settle
          (Resolved (JObj [(''overall_progress'', JNum 100)]))
          (run_until 300 (mount (initial ''p'')))))) = {#(2300, ''/project/p'')#}"
  using completion_schedules_navigation[of "JObj [(''overall_progress'', JNum 100)]"
          "run_until 300 (mount (initial ''p''))" None 0]
        completion_schedules_navigation[of "JObj [(''overall_progress'', JNum 99)]"
          "run_until 300 (mount (initial ''p''))" None 0]
        completion_schedules_navigation[of "JObj [(''overall_progress'', JNum 100)]"
          "fetchProgress_settle (Resolved (JObj [(''overall_progress'', JNum 100)]))
             (run_until 300 (mount (initial ''p'')))" None 2300]
  by (simp add: tracker_eval)

text \<open>
  Claim C1 as stated fails.  The first response (100 percent) is handled at 1900 and
  its timer is due at 3900.  The interval fires at 2000, and the response to that fetch,
  again 100 percent, is handled at 2100, before any navigation has fired: it registers a
  second timer, due at 4100.  Both fire, and the tracker navigates twice.
\<close>

theorem navigation_once_counterexample:
  "requests (exec [(1900, Settle (Resolved (JObj [(''overall_progress'', JNum 100)]))),
                  (2100, Settle (Resolved (JObj [(''overall_progress'', JNum 100)])))]
       (mount (initial ''p''))) = [(0, ''/api/progress/p''), (2000, ''/api/progress/p'')]
   \<and> navigations (exec [(1900, Settle (Resolved (JObj [(''overall_progress'', JNum 100)]))),
                       (2100, Settle (Resolved (JObj [(''overall_progress'', JNum 100)])))]
       (mount (initial ''p''))) = []
   \<and> timeouts (exec [(1900, Settle (Resolved (JObj [(''overall_progress'', JNum 100)]))),
                    (2100, Settle (Resolved (JObj [(''overall_progress'', JNum 100)])))]
       (mount (initial ''p''))) = [(3900, ''/project/p''), (4100, ''/project/p'')]
   \<and> navigations (run_until 5000
       (exec [(1900, Settle (Resolved (JObj [(''overall_progress'', JNum 100)]))),
              (2100, Settle (Resolved (JObj [(''overall_progress'', JNum 100)])))]
          (mount (initial ''p''))))
     = [(3900, ''/project/p''), (4100, ''/project/p'')]"
  by (simp add: tracker_eval)

subsection \<open>Failed fetches\<close>

text \<open>
  Claim C3, as the source has it.  A 404 sets the message \<open>Progress tracking not found
  for this project\<close>, any other failure sets \<open>Failed to fetch progress\<close>; both show the
  error screen, both leave the interval running, so that the next tick (with no
  navigation pending) issues the next fetch, and after either of them the next response
  with a body clears the error.
\<close>

theorem fetch_failure_policy:
  "error (fetchProgress_settle (Rejected (Some (404, body))) st) =
       Some ''Progress tracking not found for this project''
   \<and> (map_option fst response \<noteq> Some 404 \<longrightarrow>
        error (fetchProgress_settle (Rejected response) st) = Some ''Failed to fetch progress'')
   \<and> render (fetchProgress_settle (Rejected response) st) =
        ErrorScreen (if map_option fst response = Some 404
                     then ''Progress tracking not found for this project''
                     else ''Failed to fetch progress'')
   \<and> interval (fetchProgress_settle (Rejected response) st) = interval st
   \<and> (interval st = Some d \<and> timeouts st = [] \<and> now st \<le> d \<longrightarrow>
        requests (run_until d (fetchProgress_settle (Rejected response) st)) =
          requests st @ [(d, progress_url (projectId st))])
   \<and> (\<not> nullish data \<longrightarrow>
        error (fetchProgress_settle (Resolved data)
                 (run_until T (fetchProgress_settle (Rejected response) st))) = None)"
proof -
  let ?st = "fetchProgress_settle (Rejected response) st"
  have t: "timeouts ?st = timeouts st"
    by (simp add: fetchProgress_settle_def)
  have tick: "requests (run_until d ?st) = requests st @ [(d, progress_url (projectId st))]"
    if "interval st = Some d" "timeouts st = []" "now st \<le> d"
    using polling_requests[of ?st d d] that by (simp add: settle_fields t)
  have cleared: "error (fetchProgress_settle (Resolved data) s) = None"
    if "\<not> nullish data" for s
    using that by (simp add: fetchProgress_settle_def Let_def)
  show ?thesis
    using tick cleared
    by (simp add: settle_fields render_failed) (simp add: fetchProgress_settle_def)
qed

theorem fetch_failure_policy_witness:
  "map_option fst (Some (500, JNull)) \<noteq> Some (404::nat)
   \<and> error (fetchProgress_settle (Rejected (Some (500, JNull))) (mount (initial ''p''))) =
        Some ''Failed to fetch progress''
   \<and> interval (mount (initial ''p'')) = Some 2000 \<and> timeouts (mount (initial ''p'')) = []
   \<and> now (mount (initial ''p'')) \<le> 2000
   \<and> requests (run_until 2000
         (fetchProgress_settle (Rejected (Some (500, JNull))) (mount (initial ''p'')))) =
        [(0, ''/api/progress/p''), (2000, ''/api/progress/p'')]
   \<and> \<not> nullish (JObj [(''overall_progress'', JNum 40)])
   \<and> error (fetchProgress_settle (Resolved (JObj [(''overall_progress'', JNum 40)]))
         (run_until 2100
            (fetchProgress_settle (Rejected (Some (500, JNull))) (mount (initial ''p''))))) = None"
  using fetch_failure_policy[of JNull "mount (initial ''p'')" "Some (500, JNull)" 2000
          "JObj [(''overall_progress'', JNum 40)]" 2100]
  by (simp add: mount_def initial_def fetchProgress_request_def progress_url_def nullish_def)

text \<open>
  Claim C3 as stated fails: the state entered on a 404 is not terminal.  The interval
  fires at 2000, and when that fetch succeeds the error is cleared and the progress
  screen is back, without any manual navigation.
\<close>

theorem not_found_terminal_counterexample:
  "render (exec [(100, Settle (Rejected (Some (404, JNull))))] (mount (initial ''p''))) =
       ErrorScreen ''Progress tracking not found for this project''
   \<and> requests (exec [(100, Settle (Rejected (Some (404, JNull)))),
                     (2100, Settle (Resolved (JObj [(''overall_progress'', JNum 40)])))]
                 (mount (initial ''p''))) =
       [(0, ''/api/progress/p''), (2000, ''/api/progress/p'')]
   \<and> error (exec [(100, Settle (Rejected (Some (404, JNull)))),
                  (2100, Settle (Resolved (JObj [(''overall_progress'', JNum 40)])))]
              (mount (initial ''p''))) = None
   \<and> render (exec [(100, Settle (Rejected (Some (404, JNull)))),
                   (2100, Settle (Resolved (JObj [(''overall_progress'', JNum 40)])))]
               (mount (initial ''p''))) = ProgressScreen (Some ''40%'') ''40%''"
  by (simp add: tracker_eval render_eval)

subsection \<open>The percentage\<close>

text \<open>
  Claim C4, as the source has it.  The percentage shown is the snapshot's
  \<open>overall_progress\<close> as received, not clamped; the text and the bar width are the same
  string; a missing snapshot and a snapshot without the field render as \<open>0%\<close>.
\<close>

theorem percentage_rendering:
  "percentage_text JNull = Some ''0%'' \<and> bar_width JNull = ''0%''
   \<and> (\<not> nullish p \<and> get_prop p ''overall_progress'' = JUndefined \<longrightarrow>
        percentage_text p = Some ''0%'' \<and> bar_width p = ''0%'')
   \<and> (\<not> nullish p \<and> get_prop p ''overall_progress'' = JNum n \<longrightarrow>
        percentage_value p = JNum n
        \<and> percentage_text p = Some (int_to_string n @ ''%'')
        \<and> bar_width p = int_to_string n @ ''%'')"
  by (simp add: render_eval nullish_def)

theorem percentage_rendering_witness:
  "\<not> nullish (JObj [(''overall_progress'', JNum 42)])
   \<and> get_prop (JObj [(''overall_progress'', JNum 42)]) ''overall_progress'' = JNum 42
   \<and> \<not> nullish (JObj [(''current_step'', JStr ''Queued'')])
   \<and> get_prop (JObj [(''current_step'', JStr ''Queued'')]) ''overall_progress'' = JUndefined
   \<and> percentage_text (JObj [(''current_step'', JStr ''Queued'')]) = Some ''0%''
   \<and> percentage_text (JObj [(''overall_progress'', JNum 42)]) = Some ''42%''
   \<and> bar_width (JObj [(''overall_progress'', JNum 42)]) = ''42%''"
  using percentage_rendering[of "JObj [(''overall_progress'', JNum 42)]" 42]
        percentage_rendering[of "JObj [(''current_step'', JStr ''Queued'')]" 0]
  by (simp add: nullish_def int_to_string_def nat_to_string.simps digit_char_def)

text \<open>
  Claim C4 as stated fails: a snapshot reporting 150 is shown as \<open>150%\<close>, with a bar of
  width \<open>150%\<close>.
\<close>

theorem percentage_clamp_counterexample:
  "percentage_value (JObj [(''overall_progress'', JNum 150)]) = JNum 150
   \<and> \<not> (150::int) \<le> 100
   \<and> percentage_text (JObj [(''overall_progress'', JNum 150)]) = Some ''150%''
   \<and> bar_width (JObj [(''overall_progress'', JNum 150)]) = ''150%''"
  by (simp add: render_eval nullish_def)


section \<open>Properties of the session store\<close>

subsection \<open>Reading back what was written\<close>

lemma index_of_nth:
  "distinct xs \<Longrightarrow> k < length xs \<Longrightarrow> index_of (xs ! k) xs = Some k"
proof (induction xs arbitrary: k)
  case Nil
  then show ?case by simp
next
  case (Cons x xs)
  show ?case
  proof (cases k)
    case 0
    then show ?thesis by simp
  next
    case (Suc j)
    with Cons.prems have "xs ! j \<in> set xs" by simp
    with Cons.prems have "xs ! j \<noteq> x" by auto
    with Suc Cons show ?thesis by simp
  qed
qed

lemma hex_val_hex_char: "k < 16 \<Longrightarrow> hex_val (hex_char k) = Some k"
  using index_of_nth[of "''0123456789abcdef''" k]
  by (simp add: hex_val_def hex_char_def)

lemma digit_val_digit_char: "digit_val (digit_char k) = Some (k mod 10)"
  using index_of_nth[of "''0123456789''" "k mod 10"]
  by (simp add: digit_val_def digit_char_def)

lemma unicode_escape_control:
  assumes "(of_char c :: nat) < 32"
  shows "unicode_escape [CHR ''0'', CHR ''0'', hex_char (of_char c div 16), hex_char (of_char c mod 16)]
           = Some c"
proof -
  have d: "(of_char c :: nat) div 16 < 16" using assms by simp
  have m: "(of_char c :: nat) mod 16 < 16" by simp
  have z: "hex_val (CHR ''0'') = Some 0" by (simp add: hex_val_def digit_val_def)
  have "char_of (16 * ((of_char c :: nat) div 16) + of_char c mod 16) = c"
    by simp
  then show ?thesis
    by (simp add: unicode_escape_def hex_val_hex_char[OF d] hex_val_hex_char[OF m] z)
qed

lemma parse_chars_escape:
  "parse_chars (escape_char c @ rest) =
     map_option (\<lambda>p. (c # fst p, snd p)) (parse_chars rest)"
proof -
  consider (special) "c \<in> {CHR 0x22, CHR 0x5C, CHR 0x08, CHR 0x09, CHR 0x0A, CHR 0x0C, CHR 0x0D}"
    | (control) "c \<notin> {CHR 0x22, CHR 0x5C, CHR 0x08, CHR 0x09, CHR 0x0A, CHR 0x0C, CHR 0x0D}"
        "(of_char c :: nat) < 32"
    | (plain) "c \<notin> {CHR 0x22, CHR 0x5C, CHR 0x08, CHR 0x09, CHR 0x0A, CHR 0x0C, CHR 0x0D}"
        "\<not> (of_char c :: nat) < 32"
    by blast
  then show ?thesis
  proof cases
    case special
    then show ?thesis
      by (elim insertE emptyE) (simp_all add: escape_char_def unescape_def)
  next
    case control
    then have e: "escape_char c = [CHR 0x5C, CHR ''u'', CHR ''0'', CHR ''0'',
              hex_char (of_char c div 16), hex_char (of_char c mod 16)]"
      by (simp add: escape_char_def)
    show ?thesis
      using control by (simp add: e unicode_escape_control)
  next
    case plain
    then have e: "escape_char c = [c]"
      by (simp add: escape_char_def)
    show ?thesis
      using plain by (simp add: e)
  qed
qed

lemma parse_chars_quote:
  "parse_chars (concat (map escape_char s) @ CHR 0x22 # r) = Some (s, r)"
  by (induction s) (simp_all add: parse_chars_escape)


lemma nat_to_string_digits: "c \<in> set (nat_to_string n) \<Longrightarrow> digit_val c \<noteq> None"
proof (induction n arbitrary: c rule: nat_to_string.induct)
  case (1 n)
  show ?case
  proof (cases "n < 10")
    case True
    with "1.prems" show ?thesis
      by (simp add: nat_to_string.simps[of n] digit_val_digit_char)
  next
    case False
    with "1.prems" "1.IH" show ?thesis
      by (auto simp: nat_to_string.simps[of n] digit_val_digit_char)
  qed
qed

lemma nat_to_string_not_empty: "nat_to_string n \<noteq> []"
  by (simp add: nat_to_string.simps[of n])

lemma digits_value_nat_to_string:
  "digits_value k (nat_to_string n) = k * 10 ^ length (nat_to_string n) + n"
proof (induction n arbitrary: k rule: nat_to_string.induct)
  case (1 n)
  show ?case
  proof (cases "n < 10")
    case True
    then show ?thesis
      by (simp add: nat_to_string.simps[of n] digits_value_def digit_val_digit_char)
  next
    case False
    have "digits_value k (nat_to_string n) =
        10 * digits_value k (nat_to_string (n div 10)) + n mod 10"
      using False
      by (simp add: nat_to_string.simps[of n] digits_value_def digit_val_digit_char)
    also have "\<dots> = 10 * (k * 10 ^ length (nat_to_string (n div 10)) + n div 10) + n mod 10"
      using "1.IH"[OF False] by simp
    also have "\<dots> = k * 10 ^ length (nat_to_string n) + n"
      using False by (simp add: nat_to_string.simps[of n] algebra_simps)
    finally show ?thesis .
  qed
qed

lemma parse_nat_round_trip:
  assumes "r = [] \<or> digit_val (hd r) = None"
  shows "parse_nat (nat_to_string n @ r) = Some (n, r)"
proof -
  let ?P = "\<lambda>c. digit_val c \<noteq> None"
  have all: "\<forall>c \<in> set (nat_to_string n). ?P c"
    using nat_to_string_digits by blast
  have r: "takeWhile ?P r = []" "dropWhile ?P r = r"
    using assms by (cases r; simp)+
  have t: "takeWhile ?P (nat_to_string n @ r) = nat_to_string n"
    using all r by (simp add: takeWhile_append2)
  have d: "dropWhile ?P (nat_to_string n @ r) = r"
    using all r by (simp add: dropWhile_append2)
  have v: "digits_value 0 (nat_to_string n) = n"
    by (simp add: digits_value_nat_to_string)
  show ?thesis
    unfolding parse_nat_def Let_def t d
    using v by (simp add: nat_to_string_not_empty digits_value_def)
qed

lemma parse_number_round_trip:
  assumes "r = [] \<or> digit_val (hd r) = None"
  shows "parse_number (int_to_string i @ r) = Some (JNum i, r)"
proof (cases "i < 0")
  case True
  then show ?thesis
    using parse_nat_round_trip[OF assms, of "nat (- i)"]
    by (simp add: parse_number_def int_to_string_def)
next
  case False
  obtain c cs where s: "nat_to_string (nat i) = c # cs"
    using nat_to_string_not_empty[of "nat i"] by (cases "nat_to_string (nat i)") auto
  then have "digit_val c \<noteq> None"
    using nat_to_string_digits[of c "nat i"] by simp
  then have "c \<noteq> CHR ''-''"
    by (auto simp: digit_val_def)
  then show ?thesis
    using False s parse_nat_round_trip[OF assms, of "nat i"]
    by (simp add: parse_number_def int_to_string_def)
qed

lemma value_start_facts:
  "value_start c \<Longrightarrow> \<not> is_ws c \<and> c \<noteq> CHR '']'' \<and> c \<noteq> CHR ''}''"
  by (auto simp: value_start_def is_ws_def)

lemma skip_ws_start: "\<not> is_ws c \<Longrightarrow> skip_ws (c # s) = c # s"
  by (simp add: skip_ws_def)

lemma index_of_mem: "index_of x xs \<noteq> None \<Longrightarrow> x \<in> set xs"
  by (induction xs) (auto split: if_splits)

lemma digit_value_start: "digit_val c \<noteq> None \<Longrightarrow> value_start c \<and> c \<in> set ''0123456789''"
  using index_of_mem[of c "''0123456789''"]
  by (auto simp: digit_val_def value_start_def)

lemma stringify_data: "json_data v \<Longrightarrow> JSON_stringify v = Some (text_of v)"
  by (cases v) (simp_all add: text_of_def)

lemma text_of_array: "text_of (JArr xs) = ''['' @ join '','' (map text_of xs) @ '']''"
  by (simp add: text_of_def[abs_def])

lemma members_data:
  "\<forall>kv \<in> set kvs. json_data (snd kv) \<Longrightarrow>
     concat (map (\<lambda>kv. case JSON_stringify (snd kv) of
                          None \<Rightarrow> []
                        | Some t \<Rightarrow> [quote (fst kv) @ '':'' @ t]) kvs) = map member_text kvs"
  by (induction kvs) (simp_all add: stringify_data member_text_def)

lemma text_of_object:
  "\<forall>kv \<in> set kvs. json_data (snd kv) \<Longrightarrow>
     text_of (JObj kvs) = ''{'' @ join '','' (map member_text kvs) @ ''}''"
  by (simp add: text_of_def members_data)

lemma text_of_start: "json_data v \<Longrightarrow> text_of v \<noteq> [] \<and> value_start (hd (text_of v))"
proof (cases v)
  case (JNum i)
  obtain c cs where s: "nat_to_string (nat i) = c # cs"
    using nat_to_string_not_empty[of "nat i"] by (cases "nat_to_string (nat i)") auto
  then have "value_start c"
    using nat_to_string_digits[of c "nat i"] digit_value_start[of c] by simp
  with s JNum show ?thesis
    by (simp add: text_of_def int_to_string_def value_start_def)
qed (simp_all add: text_of_def value_start_def quote_def)

lemma follow_simps: "follow (CHR '','' # r)" "follow (CHR '']'' # r)" "follow (CHR ''}'' # r)"
  "follow []"
  by (simp_all add: follow_def digit_val_def)

lemma reads_backD:
  "reads_back v \<Longrightarrow> length (text_of v) \<le> length (fuel::string) \<Longrightarrow> follow r \<Longrightarrow>
     parse_value fuel (text_of v @ r) = Some (v, r)"
  by (simp add: reads_back_def)

lemma parse_elements_round_trip:
  "\<forall>x \<in> set xs. json_data x \<and> reads_back x \<Longrightarrow> xs \<noteq> [] \<Longrightarrow>
   length (join '','' (map text_of xs)) < length (fuel::string) \<Longrightarrow>
   parse_elements fuel (join '','' (map text_of xs) @ CHR '']'' # r) = Some (xs, r)"
proof (induction xs arbitrary: fuel)
  case Nil
  then show ?case by simp
next
  case (Cons x xs)
  from Cons.prems(3) obtain f fuel' where fuel: "fuel = f # fuel'"
    by (cases fuel) auto
  have rb: "reads_back x" using Cons.prems(1) by simp
  show ?case
  proof (cases xs)
    case Nil
    have "parse_value fuel' (text_of x @ CHR '']'' # r) = Some (x, CHR '']'' # r)"
      by (rule reads_backD[OF rb]) (use Cons.prems(3) Nil fuel in \<open>simp_all add: follow_simps\<close>)
    then show ?thesis
      using Nil fuel by (simp add: skip_ws_start is_ws_def)
  next
    case (Cons y ys)
    let ?rest = "join '','' (map text_of xs)"
    have j: "join '','' (map text_of (x # xs)) = text_of x @ '','' @ ?rest"
      using Cons by simp
    have "parse_value fuel' (text_of x @ CHR '','' # ?rest @ CHR '']'' # r) =
        Some (x, CHR '','' # ?rest @ CHR '']'' # r)"
      by (rule reads_backD[OF rb]) (use Cons.prems(3) fuel j in \<open>simp_all add: follow_simps\<close>)
    moreover have "parse_elements fuel' (?rest @ CHR '']'' # r) = Some (xs, r)"
      by (rule Cons.IH) (use Cons.prems Cons fuel j in \<open>simp_all\<close>)
    ultimately show ?thesis
      using fuel j by (simp add: skip_ws_start is_ws_def)
  qed
qed

lemma parse_members_round_trip:
  "\<forall>kv \<in> set kvs. json_data (snd kv) \<and> reads_back (snd kv) \<Longrightarrow> kvs \<noteq> [] \<Longrightarrow>
   length (join '','' (map member_text kvs)) < length (fuel::string) \<Longrightarrow>
   parse_members fuel (join '','' (map member_text kvs) @ CHR ''}'' # r) = Some (kvs, r)"
proof (induction kvs arbitrary: fuel)
  case Nil
  then show ?case by simp
next
  case (Cons kv kvs)
  from Cons.prems(3) obtain f fuel' where fuel: "fuel = f # fuel'"
    by (cases fuel) auto
  obtain k v where kv: "kv = (k, v)" by (cases kv)
  have rb: "reads_back v" using Cons.prems(1) kv by simp
  have m: "member_text kv @ s =
      CHR 0x22 # concat (map escape_char k) @ CHR 0x22 # CHR '':'' # text_of v @ s" for s
    by (simp add: member_text_def kv quote_def)
  have len: "length (text_of v) < length (member_text kv)"
    by (simp add: member_text_def kv quote_def)
  show ?case
  proof (cases kvs)
    case Nil
    have "parse_value fuel' (text_of v @ CHR ''}'' # r) = Some (v, CHR ''}'' # r)"
      by (rule reads_backD[OF rb]) (use Cons.prems(3) Nil fuel len in \<open>simp_all add: follow_simps\<close>)
    then show ?thesis
      using Nil fuel m[of "CHR ''}'' # r"]
      by (simp add: skip_ws_start is_ws_def parse_chars_quote kv)
  next
    case (Cons kv' kvs')
    let ?rest = "join '','' (map member_text kvs)"
    have j: "join '','' (map member_text (kv # kvs)) = member_text kv @ '','' @ ?rest"
      using Cons by simp
    have "parse_value fuel' (text_of v @ CHR '','' # ?rest @ CHR ''}'' # r) =
        Some (v, CHR '','' # ?rest @ CHR ''}'' # r)"
      by (rule reads_backD[OF rb]) (use Cons.prems(3) fuel j len in \<open>simp_all add: follow_simps\<close>)
    moreover have "parse_members fuel' (?rest @ CHR ''}'' # r) = Some (kvs, r)"
      by (rule Cons.IH) (use Cons.prems Cons fuel j in \<open>simp_all\<close>)
    ultimately show ?thesis
      using fuel j m[of "CHR '','' # ?rest @ CHR ''}'' # r"]
      by (simp add: skip_ws_start is_ws_def parse_chars_quote kv)
  qed
qed

lemma foldl_obj_set:
  "distinct (map fst (acc @ kvs)) \<Longrightarrow> foldl obj_set acc kvs = acc @ kvs"
proof (induction kvs arbitrary: acc)
  case Nil
  then show ?case by simp
next
  case (Cons kv kvs)
  have "obj_set acc kv = acc @ [kv]"
    using Cons.prems by (auto simp: obj_set_def)
  with Cons show ?case by simp
qed

lemma number_start:
  "hd (int_to_string i) \<in> set ''-0123456789'' \<and> int_to_string i \<noteq> []"
proof -
  obtain c cs where s: "nat_to_string (nat i) = c # cs"
    using nat_to_string_not_empty[of "nat i"] by (cases "nat_to_string (nat i)") auto
  then have "c \<in> set ''0123456789''"
    using nat_to_string_digits[of c "nat i"] digit_value_start[of c] by simp
  with s show ?thesis
    by (simp add: int_to_string_def)
qed

lemma parse_value_number:
  assumes "follow r" "fuel \<noteq> []"
  shows "parse_value fuel (int_to_string i @ r) = Some (JNum i, r)"
proof -
  obtain f fuel' where fuel: "fuel = f # fuel'"
    using assms(2) by (cases fuel) auto
  obtain c cs where s: "int_to_string i = c # cs"
    using number_start[of i] by (cases "int_to_string i") auto
  then have c: "c \<in> set ''-0123456789''"
    using number_start[of i] by simp
  have "parse_number (c # cs @ r) = Some (JNum i, r)"
    using parse_number_round_trip[of r i] assms(1) s by (simp add: follow_def)
  moreover have "\<not> is_ws c" "c \<noteq> CHR ''n''" "c \<noteq> CHR ''t''" "c \<noteq> CHR ''f''"
    "c \<noteq> CHR 0x22" "c \<noteq> CHR ''[''" "c \<noteq> CHR ''{''"
    using c by (auto simp: is_ws_def)
  ultimately show ?thesis
    by (simp add: fuel s skip_ws_start)
qed

lemma json_data_reads_back: "json_data v \<Longrightarrow> reads_back v"
proof (induction v)
  case JUndefined
  then show ?case by simp
next
  case JNull
  show ?case
    unfolding reads_back_def
  proof (intro allI impI)
    fix fuel :: string and r
    assume "length (text_of JNull) \<le> length fuel"
    then obtain f fuel' where "fuel = f # fuel'"
      by (cases fuel) (auto simp: text_of_def)
    then show "parse_value fuel (text_of JNull @ r) = Some (JNull, r)"
      by (simp add: text_of_def skip_ws_start is_ws_def strip_prefix_def)
  qed
next
  case (JBool b)
  show ?case
    unfolding reads_back_def
  proof (intro allI impI)
    fix fuel :: string and r
    assume "length (text_of (JBool b)) \<le> length fuel"
    then obtain f fuel' where "fuel = f # fuel'"
      by (cases fuel) (auto simp: text_of_def split: if_splits)
    then show "parse_value fuel (text_of (JBool b) @ r) = Some (JBool b, r)"
      by (cases b) (simp_all add: text_of_def skip_ws_start is_ws_def strip_prefix_def)
  qed
next
  case (JNum i)
  show ?case
    unfolding reads_back_def
  proof (intro allI impI)
    fix fuel :: string and r
    assume len: "length (text_of (JNum i)) \<le> length fuel" and fo: "follow r"
    have "int_to_string i \<noteq> []" using number_start by simp
    with len have "fuel \<noteq> []" by (auto simp: text_of_def)
    then show "parse_value fuel (text_of (JNum i) @ r) = Some (JNum i, r)"
      using parse_value_number[OF fo, of fuel i] by (simp add: text_of_def)
  qed
next
  case (JStr s)
  show ?case
    unfolding reads_back_def
  proof (intro allI impI)
    fix fuel :: string and r
    assume "length (text_of (JStr s)) \<le> length fuel"
    then obtain f fuel' where "fuel = f # fuel'"
      by (cases fuel) (auto simp: text_of_def quote_def)
    then show "parse_value fuel (text_of (JStr s) @ r) = Some (JStr s, r)"
      by (simp add: text_of_def quote_def skip_ws_start is_ws_def parse_chars_quote)
  qed
next
  case (JArr xs)
  then have all: "\<forall>x \<in> set xs. json_data x \<and> reads_back x"
    by simp
  show ?case
    unfolding reads_back_def
  proof (intro allI impI)
    fix fuel :: string and r
    assume len: "length (text_of (JArr xs)) \<le> length fuel"
    then obtain f fuel' where fuel: "fuel = f # fuel'"
      by (cases fuel) (auto simp: text_of_array)
    show "parse_value fuel (text_of (JArr xs) @ r) = Some (JArr xs, r)"
    proof (cases xs)
      case Nil
      then show ?thesis
        by (simp add: fuel text_of_array skip_ws_start is_ws_def)
    next
      case (Cons y ys)
      let ?j = "join '','' (map text_of xs)"
      have "text_of y \<noteq> []" "value_start (hd (text_of y))"
        using all Cons text_of_start[of y] by simp_all
      then obtain c cs where t: "text_of y = c # cs" and c: "value_start c"
        by (cases "text_of y") auto
      then obtain js where j: "?j = c # js"
        using Cons by (cases ys) simp_all
      have e: "parse_elements fuel' (?j @ CHR '']'' # r) = Some (xs, r)"
        using all Cons len fuel
        by (intro parse_elements_round_trip) (simp_all add: text_of_array)
      show ?thesis
        using e j value_start_facts[OF c]
        by (simp add: fuel text_of_array skip_ws_start is_ws_def)
    qed
  qed
next
  case (JObj kvs)
  then have all: "\<forall>kv \<in> set kvs. json_data (snd kv) \<and> reads_back (snd kv)"
    and dist: "distinct (map fst kvs)"
    by (auto simp: snds.simps)
  then have obj_text: "text_of (JObj kvs) = ''{'' @ join '','' (map member_text kvs) @ ''}''"
    by (simp add: text_of_object)
  show ?case
    unfolding reads_back_def
  proof (intro allI impI)
    fix fuel :: string and r
    assume len: "length (text_of (JObj kvs)) \<le> length fuel"
    then obtain f fuel' where fuel: "fuel = f # fuel'"
      by (cases fuel) (auto simp: obj_text)
    have jl: "length (join '','' (map member_text kvs)) < length fuel'"
      using len fuel by (simp add: obj_text)
    show "parse_value fuel (text_of (JObj kvs) @ r) = Some (JObj kvs, r)"
    proof (cases kvs)
      case Nil
      then show ?thesis
        by (simp add: fuel text_of_def skip_ws_start is_ws_def)
    next
      case (Cons kv kvs')
      let ?j = "join '','' (map member_text kvs)"
      obtain js where j: "?j = CHR 0x22 # js"
        using Cons by (cases kvs') (simp_all add: member_text_def quote_def)
      have e: "parse_members fuel' (?j @ CHR ''}'' # r) = Some (kvs, r)"
        using all Cons jl
        by (intro parse_members_round_trip) simp_all
      have fo: "foldl obj_set [] kvs = kvs"
        using dist foldl_obj_set[of "[]" kvs] by simp
      show ?thesis
        using e j fo
        by (simp add: fuel obj_text skip_ws_start is_ws_def)
    qed
  qed
qed

lemma JSON_round_trip:
  "json_data v \<Longrightarrow> Option.bind (JSON_stringify v) JSON_parse = Some v"
proof -
  assume d: "json_data v"
  then have "parse_value (text_of v) (text_of v @ []) = Some (v, [])"
    by (intro reads_backD json_data_reads_back) (simp_all add: follow_simps)
  with d show ?thesis
    by (simp add: stringify_data JSON_parse_def skip_ws_def)
qed

subsection \<open>Login, reload, logout\<close>

lemma truthy_prop_not_nullish: "truthy (get_prop u k) \<Longrightarrow> \<not> nullish u"
  by (cases u) (simp_all add: nullish_def)

lemma JSON_parse_empty: "JSON_parse [] = None"
  by (simp add: JSON_parse_def)

lemma set_bearer_fields:
  "truthy (get_prop u ''access_token'') \<Longrightarrow>
     common_headers (set_bearer u st) ''Authorization'' =
       Some (''Bearer '' @ ToString (get_prop u ''access_token''))"
  "user (set_bearer u st) = user st"
  "localStorage (set_bearer u st) = localStorage st"
  by (simp_all add: set_bearer_def)

text \<open>
  Claim C5.  For every user record that is JSON data and carries a bearer token,
  \<open>login\<close> returns, stores the serialised record under the one session key, and a
  request made afterwards carries \<open>Authorization: Bearer <token>\<close>; reloading the page
  restores the same user with the same header; and after \<open>logout\<close> the stored record is
  gone and a request carries no \<open>Authorization\<close> header, also after a reload.
\<close>

theorem session_store:
  assumes tok: "truthy (get_prop u ''access_token'')"
      and data: "json_data u"
  shows "handleLogin u st = Returned (state_of (handleLogin u st))
       \<and> user (state_of (handleLogin u st)) = u
       \<and> localStorage (state_of (handleLogin u st)) session_key = JSON_stringify u
       \<and> request_headers (state_of (handleLogin u st)) ''Authorization'' =
           Some (''Bearer '' @ ToString (get_prop u ''access_token''))
       \<and> reload (state_of (handleLogin u st)) =
           Returned (state_of (reload (state_of (handleLogin u st))))
       \<and> user (state_of (reload (state_of (handleLogin u st)))) = u
       \<and> request_headers (state_of (reload (state_of (handleLogin u st)))) ''Authorization'' =
           Some (''Bearer '' @ ToString (get_prop u ''access_token''))
       \<and> user (handleLogout st') = JNull
       \<and> localStorage (handleLogout st') session_key = None
       \<and> request_headers (handleLogout st') ''Authorization'' = None
       \<and> request_headers (state_of (reload (handleLogout st'))) ''Authorization'' = None"
proof -
  from JSON_round_trip[OF data]
  obtain t where t: "JSON_stringify u = Some t" "JSON_parse t = Some u"
    by (cases "JSON_stringify u") auto
  have ne: "t \<noteq> []" using t(2) JSON_parse_empty by auto
  have nn: "\<not> nullish u" using tok by (rule truthy_prop_not_nullish)
  let ?L = "state_of (handleLogin u st)"
  let ?R = "state_of (reload ?L)"
  let ?B = "Some (''Bearer '' @ ToString (get_prop u ''access_token''))"
  have login: "handleLogin u st =
      Returned ((set_bearer u (st\<lparr>user := u,
        localStorage := (localStorage st)(session_key \<mapsto> t)\<rparr>))\<lparr>showAuth := False\<rparr>)"
    using nn t(1) by (simp add: handleLogin_def Let_def)
  have L1: "handleLogin u st = Returned ?L"
    by (simp add: login)
  have L2: "user ?L = u"
    by (simp add: login set_bearer_fields)
  have L3: "localStorage ?L session_key = JSON_stringify u"
    by (simp add: login set_bearer_fields t(1))
  have L4: "request_headers ?L ''Authorization'' = ?B"
    using tok by (simp add: login set_bearer_fields request_headers_def)
  have rel: "reload ?L =
      Returned ((set_bearer u ((page_load (localStorage ?L))\<lparr>user := u\<rparr>))
                  \<lparr>app_loading := False\<rparr>)"
    using t(2) ne nn L3 by (simp add: reload_def restore_session_def page_load_def t(1))
  have R1: "reload ?L = Returned ?R"
    by (simp add: rel)
  have R2: "user ?R = u"
    by (simp add: rel set_bearer_fields)
  have R3: "request_headers ?R ''Authorization'' = ?B"
    using tok by (simp add: rel set_bearer_fields request_headers_def)
  have O1: "user (handleLogout st') = JNull"
    and O2: "localStorage (handleLogout st') session_key = None"
    and O3: "request_headers (handleLogout st') ''Authorization'' = None"
    by (simp_all add: handleLogout_def request_headers_def)
  have O4: "request_headers (state_of (reload (handleLogout st'))) ''Authorization'' = None"
    by (simp add: reload_def restore_session_def handleLogout_def page_load_def
        request_headers_def)
  show ?thesis
    by (intro conjI L1 L2 L3 L4 R1 R2 R3 O1 O2 O3 O4)
qed

theorem session_store_witness:
  "truthy (get_prop (JObj [(''access_token'', JStr ''t''), (''email'', JStr ''a@b.com'')])
      ''access_token'')
   \<and> json_data (JObj [(''access_token'', JStr ''t''), (''email'', JStr ''a@b.com'')])
   \<and> request_headers (state_of (handleLogin
          (JObj [(''access_token'', JStr ''t''), (''email'', JStr ''a@b.com'')])
          (page_load Map.empty))) ''Authorization'' = Some ''Bearer t''
   \<and> request_headers (state_of (reload (state_of (handleLogin
          (JObj [(''access_token'', JStr ''t''), (''email'', JStr ''a@b.com'')])
          (page_load Map.empty))))) ''Authorization'' = Some ''Bearer t''
   \<and> request_headers (handleLogout (state_of (handleLogin
          (JObj [(''access_token'', JStr ''t''), (''email'', JStr ''a@b.com'')])
          (page_load Map.empty)))) ''Authorization'' = None"
  using session_store[of "JObj [(''access_token'', JStr ''t''), (''email'', JStr ''a@b.com'')]"
          "page_load Map.empty"
          "state_of (handleLogin
             (JObj [(''access_token'', JStr ''t''), (''email'', JStr ''a@b.com'')])
             (page_load Map.empty))"]
  by (simp add: quote_def escape_char_def JSON_parse_def skip_ws_def is_ws_def obj_set_def)

section \<open>Properties of the Project Creator\<close>

lemma submit_project_calls:
  "calls (state_of (submit_project cr gr st)) =
     calls st @ Post ''/api/projects'' (projectData st) #
       (case cr of
          Resolved d \<Rightarrow>
            if \<not> nullish d \<and> (activeTab st = PromptTab
                 \<or> (activeTab st = UploadTab \<and> genre (formData st) = ''audiobook''))
            then [Post ''/api/ai/generate-book'' (generateRequest (get_prop d ''project_id'') st)]
            else []
        | Rejected r \<Rightarrow> [])"
  by (auto simp: submit_project_def submit_failed_def toast_error_def Let_def
      split: http_result.splits sum.splits)

text \<open>
  Claim C6, as the source has it.  A title that is empty after trimming is rejected
  with a toast and without any network call or navigation.  In the prompt flow with a
  title and a prompt that are non-empty after trimming, \<open>POST /api/projects\<close> is issued
  first; when it resolves with a body, \<open>POST /api/ai/generate-book\<close> is issued second,
  and these two are all the calls; when the second resolves too the app navigates to
  \<open>/progress/{projectId}\<close>.  When the first call is rejected, or resolves without a body,
  it is the only call, and the app does not navigate; nor does it when the second call
  is rejected.
\<close>

theorem project_submission:
  "(trim (title (formData st)) = [] \<longrightarrow>
      handleSubmit cr gr st = Returned (toast_error ''Please enter a project title'' st)
      \<and> calls (state_of (handleSubmit cr gr st)) = calls st
      \<and> navigated (state_of (handleSubmit cr gr st)) = navigated st)
   \<and> (trim (title (formData st)) \<noteq> [] \<and> activeTab st = PromptTab
        \<and> trim (prompt (formData st)) \<noteq> [] \<longrightarrow>
        (\<not> nullish d \<longrightarrow>
           calls (state_of (handleSubmit (Resolved d) gr st)) =
             calls st @ [Post ''/api/projects'' (projectData st),
                         Post ''/api/ai/generate-book''
                           (generateRequest (get_prop d ''project_id'') st)])
        \<and> (\<not> nullish d \<longrightarrow>
           handleSubmit (Resolved d) (Resolved b) st =
             Returned (state_of (handleSubmit (Resolved d) (Resolved b) st))
           \<and> navigated (state_of (handleSubmit (Resolved d) (Resolved b) st)) =
               navigated st @ [''/progress/'' @ ToString (get_prop d ''project_id'')])
        \<and> (nullish d \<longrightarrow>
           calls (state_of (handleSubmit (Resolved d) gr st)) =
             calls st @ [Post ''/api/projects'' (projectData st)]
           \<and> navigated (state_of (handleSubmit (Resolved d) gr st)) = navigated st)
        \<and> calls (state_of (handleSubmit (Rejected r) gr st)) =
             calls st @ [Post ''/api/projects'' (projectData st)]
        \<and> navigated (state_of (handleSubmit (Rejected r) gr st)) = navigated st
        \<and> navigated (state_of (handleSubmit (Resolved d) (Rejected r) st)) = navigated st)"
proof -
  have valid: "handleSubmit x y st = submit_project x y st"
    if "trim (title (formData st)) \<noteq> []" "activeTab st = PromptTab"
       "trim (prompt (formData st)) \<noteq> []" for x y
    using that by (simp add: handleSubmit_def Let_def)
  have nav_fail: "navigated (state_of (submit_failed r' s)) = navigated s" for r' s
    by (simp add: submit_failed_def toast_error_def split: sum.splits)
  show ?thesis
    by (auto simp: valid submit_project_calls)
       (auto simp: handleSubmit_def toast_error_def submit_project_def Let_def nav_fail)
qed


lemmas trim_eval = trim_def strip_start.simps space_at_start_def white_space_def

lemma trim_blank: "trim [CHR 0x20, CHR 0xC2, CHR 0xA0, CHR 0xE3, CHR 0x80, CHR 0x80] = []"
  by (simp add: trim_eval)

lemma trim_title: "trim '' My Book'' = ''My Book''"
  by (simp add: trim_eval)

lemma trim_prompt: "trim ''A story '' = ''A story''"
  by (simp add: trim_eval)

lemma trim_plain_title: "trim ''My Book'' = ''My Book''"
  by (simp add: trim_eval)

lemma trim_plain_prompt: "trim ''A story'' = ''A story''"
  by (simp add: trim_eval)

theorem project_submission_witness:
  "trim (title (formData (initial_creator\<lparr>formData := (formData initial_creator)
          \<lparr>title := [CHR 0x20, CHR 0xC2, CHR 0xA0, CHR 0xE3, CHR 0x80, CHR 0x80],
           prompt := ''A story''\<rparr>\<rparr>))) = []
   \<and> calls (state_of (handleSubmit (Resolved JNull) (Resolved JNull)
         (initial_creator\<lparr>formData := (formData initial_creator)
            \<lparr>title := [CHR 0x20, CHR 0xC2, CHR 0xA0, CHR 0xE3, CHR 0x80, CHR 0x80],
             prompt := ''A story''\<rparr>\<rparr>))) = []
   \<and> trim (title (formData (initial_creator\<lparr>formData := (formData initial_creator)
          \<lparr>title := '' My Book'', prompt := ''A story ''\<rparr>\<rparr>))) = ''My Book''
   \<and> activeTab (initial_creator\<lparr>formData := (formData initial_creator)
          \<lparr>title := '' My Book'', prompt := ''A story ''\<rparr>\<rparr>) = PromptTab
   \<and> trim (prompt (formData (initial_creator\<lparr>formData := (formData initial_creator)
          \<lparr>title := '' My Book'', prompt := ''A story ''\<rparr>\<rparr>))) = ''A story''
   \<and> \<not> nullish (JObj [(''project_id'', JStr ''abc123'')])
   \<and> length (calls (state_of (handleSubmit (Resolved (JObj [(''project_id'', JStr ''abc123'')]))
         (Resolved (JObj []))
         (initial_creator\<lparr>formData := (formData initial_creator)
            \<lparr>title := '' My Book'', prompt := ''A story ''\<rparr>\<rparr>)))) = 2
   \<and> navigated (state_of (handleSubmit (Resolved (JObj [(''project_id'', JStr ''abc123'')]))
         (Resolved (JObj []))
         (initial_creator\<lparr>formData := (formData initial_creator)
            \<lparr>title := '' My Book'', prompt := ''A story ''\<rparr>\<rparr>))) = [''/progress/abc123'']
   \<and> nullish JNull
   \<and> length (calls (state_of (handleSubmit (Resolved JNull) (Resolved (JObj []))
         (initial_creator\<lparr>formData := (formData initial_creator)
            \<lparr>title := '' My Book'', prompt := ''A story ''\<rparr>\<rparr>)))) = 1
   \<and> navigated (state_of (handleSubmit (Resolved JNull) (Resolved (JObj []))
         (initial_creator\<lparr>formData := (formData initial_creator)
            \<lparr>title := '' My Book'', prompt := ''A story ''\<rparr>\<rparr>))) = []"
  using project_submission[of
          "initial_creator\<lparr>formData := (formData initial_creator)
             \<lparr>title := [CHR 0x20, CHR 0xC2, CHR 0xA0, CHR 0xE3, CHR 0x80, CHR 0x80],
              prompt := ''A story''\<rparr>\<rparr>"
          "Resolved JNull" "Resolved JNull" JNull JNull None]
        project_submission[of
          "initial_creator\<lparr>formData := (formData initial_creator)
             \<lparr>title := '' My Book'', prompt := ''A story ''\<rparr>\<rparr>"
          "Resolved JNull" "Resolved (JObj [])" "JObj [(''project_id'', JStr ''abc123'')]"
          "JObj []" None]
        project_submission[of
          "initial_creator\<lparr>formData := (formData initial_creator)
             \<lparr>title := '' My Book'', prompt := ''A story ''\<rparr>\<rparr>"
          "Resolved JNull" "Resolved (JObj [])" JNull "JObj []" None]
  by (simp add: initial_creator_def trim_blank trim_title trim_prompt nullish_def toast_error_def)

text \<open>
  Claim C6 as stated fails: with a title and a prompt in the prompt flow, a create call
  that the server answers with an error is the only call issued; the handler shows
  the error and stays on the page.
\<close>

theorem two_calls_counterexample:
  "trim (title (formData (initial_creator\<lparr>formData := (formData initial_creator)
          \<lparr>title := ''My Book'', prompt := ''A story''\<rparr>\<rparr>))) = ''My Book''
   \<and> trim (prompt (formData (initial_creator\<lparr>formData := (formData initial_creator)
          \<lparr>title := ''My Book'', prompt := ''A story''\<rparr>\<rparr>))) = ''A story''
   \<and> activeTab (initial_creator\<lparr>formData := (formData initial_creator)
          \<lparr>title := ''My Book'', prompt := ''A story''\<rparr>\<rparr>) = PromptTab
   \<and> calls (state_of (handleSubmit
         (Rejected (Some (500, JObj [(''detail'', JStr ''Database unavailable'')])))
         (Resolved (JObj []))
         (initial_creator\<lparr>formData := (formData initial_creator)
            \<lparr>title := ''My Book'', prompt := ''A story''\<rparr>\<rparr>))) =
       [Post ''/api/projects''
          (JObj [(''title'', JStr ''My Book''), (''author'', JStr []), (''description'', JStr []),
                 (''genre'', JStr ''ebook''), (''target_language'', JStr ''en''),
                 (''voice_style'', JStr ''neutral''), (''content'', JStr ''A story'')])]
   \<and> toasts (state_of (handleSubmit
         (Rejected (Some (500, JObj [(''detail'', JStr ''Database unavailable'')])))
         (Resolved (JObj []))
         (initial_creator\<lparr>formData := (formData initial_creator)
            \<lparr>title := ''My Book'', prompt := ''A story''\<rparr>\<rparr>))) =
       [ToastError (JStr ''Database unavailable'')]
   \<and> navigated (state_of (handleSubmit
         (Rejected (Some (500, JObj [(''detail'', JStr ''Database unavailable'')])))
         (Resolved (JObj []))
         (initial_creator\<lparr>formData := (formData initial_creator)
            \<lparr>title := ''My Book'', prompt := ''A story''\<rparr>\<rparr>))) = []"
  by (simp add: handleSubmit_def submit_project_def submit_failed_def toast_error_def
      initial_creator_def trim_plain_title trim_plain_prompt Let_def projectData_def js_or_def
      opt_prop_def
      nullish_def submit_error_message_def error_detail_def)

lemma onDrop_empty: "onDrop [] ur st = Returned st"
  by (simp add: onDrop_def)

lemma type_accepted_dropzone:
  "type_accepted dropzone f \<longleftrightarrow>
     file_type f = ''text/plain'' \<or> ends_with ''.txt'' (file_name f)
   \<or> file_type f = ''application/pdf'' \<or> ends_with ''.pdf'' (file_name f)
   \<or> file_type f = ''application/vnd.openxmlformats-officedocument.wordprocessingml.document''
   \<or> ends_with ''.docx'' (file_name f)"
  by (simp add: type_accepted_def dropzone_def)

lemma accepted_files_sound:
  "f \<in> set (accepted_files opts fs) \<Longrightarrow>
     f \<in> set fs \<and> type_accepted opts f \<and> file_size f \<le> maxSize opts"
  by (auto simp: accepted_files_def Let_def split: if_splits)

text \<open>
  Claim C7.  A file larger than 25 MB or of a type outside txt, pdf and docx is not
  among the accepted files, so \<open>onDrop\<close> returns at once: the state, and with it the
  list of network calls, is unchanged.
  Whatever is offered, either no call is made or the one call made is
  \<open>POST /api/files/upload\<close> with an offered file of a listed type and of at most 25 MB.
\<close>

theorem upload_filter:
  "(file_size f > 25 * 1024 * 1024 \<or> \<not> type_accepted dropzone f \<longrightarrow>
      drop_files [f] ur st = Returned st)
   \<and> (calls (state_of (drop_files fs ur st)) = calls st
       \<or> (\<exists>g \<in> set fs. type_accepted dropzone g \<and> file_size g \<le> 25 * 1024 * 1024
             \<and> calls (state_of (drop_files fs ur st)) =
                 calls st @ [PostFile ''/api/files/upload'' g]))
   \<and> (type_accepted dropzone f \<longleftrightarrow>
        file_type f = ''text/plain'' \<or> ends_with ''.txt'' (file_name f)
      \<or> file_type f = ''application/pdf'' \<or> ends_with ''.pdf'' (file_name f)
      \<or> file_type f =
           ''application/vnd.openxmlformats-officedocument.wordprocessingml.document''
      \<or> ends_with ''.docx'' (file_name f))"
proof -
  have rej: "drop_files [f] ur st = Returned st"
    if "file_size f > 25 * 1024 * 1024 \<or> \<not> type_accepted dropzone f"
  proof -
    have "accepted_files dropzone [f] = []"
      using that by (auto simp: accepted_files_def dropzone_def)
    then show ?thesis by (simp add: drop_files_def onDrop_empty)
  qed
  have acc: "calls (state_of (drop_files fs ur st)) = calls st
       \<or> (\<exists>g \<in> set fs. type_accepted dropzone g \<and> file_size g \<le> 25 * 1024 * 1024
             \<and> calls (state_of (drop_files fs ur st)) =
                 calls st @ [PostFile ''/api/files/upload'' g])"
  proof (cases "accepted_files dropzone fs")
    case Nil
    then show ?thesis by (simp add: drop_files_def onDrop_empty)
  next
    case (Cons g gs)
    then have "g \<in> set (accepted_files dropzone fs)" by simp
    then have g: "g \<in> set fs" "type_accepted dropzone g" "file_size g \<le> 25 * 1024 * 1024"
      using accepted_files_sound[of g dropzone fs] by (simp_all add: dropzone_def)
    have "calls (state_of (drop_files fs ur st)) = calls st @ [PostFile ''/api/files/upload'' g]"
      by (simp add: drop_files_def onDrop_def Cons Let_def split: http_result.splits)
    with g show ?thesis by blast
  qed
  show ?thesis
    using rej acc type_accepted_dropzone[of f] by blast
qed
theorem upload_filter_witness:
  "file_size \<lparr>file_name = ''scan.pdf'', file_type = ''application/pdf'',
               file_size = 30000000\<rparr> > 25 * 1024 * 1024
   \<and> drop_files [\<lparr>file_name = ''scan.pdf'', file_type = ''application/pdf'',
                   file_size = 30000000\<rparr>] (Resolved (JObj [])) initial_creator =
        Returned initial_creator
   \<and> \<not> type_accepted dropzone \<lparr>file_name = ''setup.exe'',
          file_type = ''application/x-msdownload'', file_size = 1000\<rparr>
   \<and> drop_files [\<lparr>file_name = ''setup.exe'', file_type = ''application/x-msdownload'',
                   file_size = 1000\<rparr>] (Resolved (JObj [])) initial_creator =
        Returned initial_creator
   \<and> calls (state_of (drop_files [\<lparr>file_name = ''draft.txt'', file_type = ''text/plain'',
                   file_size = 1000\<rparr>] (Resolved (JObj [])) initial_creator)) =
        [PostFile ''/api/files/upload'' \<lparr>file_name = ''draft.txt'', file_type = ''text/plain'',
                   file_size = 1000\<rparr>]"
  using upload_filter[of "\<lparr>file_name = ''scan.pdf'', file_type = ''application/pdf'',
               file_size = 30000000\<rparr>" "Resolved (JObj [])" initial_creator "[]"]
        upload_filter[of "\<lparr>file_name = ''setup.exe'',
          file_type = ''application/x-msdownload'', file_size = 1000\<rparr>"
          "Resolved (JObj [])" initial_creator
          "[\<lparr>file_name = ''draft.txt'', file_type = ''text/plain'', file_size = 1000\<rparr>]"]
  by (simp add: ends_with_def initial_creator_def drop_files_def accepted_files_def
      type_accepted_def dropzone_def onDrop_def nullish_def)

subsection \<open>Error payloads\<close>

lemma error_item_text_renderable:
  "renderable_item e \<Longrightarrow> \<exists>t. error_item_text e = Inr t"
  by (cases e; cases "get_prop e ''loc''")
     (auto simp: renderable_item_def error_item_text_def is_array_def nullish_def)

lemma map_items_renderable:
  "\<forall>e \<in> set errs. renderable_item e \<Longrightarrow>
     map_items errs = Inr (map (\<lambda>e. projr (error_item_text e)) errs)"
proof (induction errs)
  case Nil
  then show ?case by simp
next
  case (Cons e errs)
  from Cons.prems obtain t where t: "error_item_text e = Inr t"
    using error_item_text_renderable[of e] by auto
  have "map_items errs = Inr (map (\<lambda>e. projr (error_item_text e)) errs)"
    using Cons by simp
  with t show ?case by simp
qed

text \<open>
  Claim C9.  A non-empty string \<open>detail\<close> is the message itself; an array of field-level
  errors becomes the texts of its elements joined by a comma and a space; any other
  object becomes its JSON text; a payload with no \<open>detail\<close> (or a falsy one) yields the
  default message.  In each case the handler shows that one string in one error toast.
\<close>

theorem error_payload_normalised:
  "(error_detail r = JStr t \<and> t \<noteq> [] \<longrightarrow> submit_error_message r = Inr t)
   \<and> (error_detail r = JArr errs \<and> (\<forall>e \<in> set errs. renderable_item e) \<longrightarrow>
        submit_error_message r =
          Inr (join '', '' (map (\<lambda>e. projr (error_item_text e)) errs)))
   \<and> (error_detail r = JObj kvs \<longrightarrow>
        (\<exists>m. JSON_stringify (JObj kvs) = Some m \<and> submit_error_message r = Inr m))
   \<and> (\<not> truthy (error_detail r) \<longrightarrow> submit_error_message r = Inr default_message)
   \<and> (submit_error_message r = Inr m \<longrightarrow>
        submit_failed r st =
          Returned (st\<lparr>toasts := toasts st @ [ToastError (JStr m)], creator_loading := False\<rparr>))"
  using map_items_renderable[of errs]
  by (auto simp: submit_error_message_def submit_failed_def toast_error_def Let_def)

lemmas message_eval =
  submit_error_message_def error_detail_def error_item_text_def opt_prop_def nullish_def
  array_join_def default_message_def renderable_item_def is_array_def Let_def

theorem error_payload_normalised_witness:
  "error_detail (Some (400, JObj [(''detail'', JStr ''Quota exceeded'')])) = JStr ''Quota exceeded''
   \<and> ''Quota exceeded'' \<noteq> []
   \<and> submit_error_message (Some (400, JObj [(''detail'', JStr ''Quota exceeded'')])) =
        Inr ''Quota exceeded''
   \<and> renderable_item (JObj [(''loc'', JArr [JStr ''body'', JStr ''title'']),
                             (''msg'', JStr ''field required'')])
   \<and> renderable_item (JStr ''bad genre'')
   \<and> submit_error_message (Some (422, JObj [(''detail'',
          JArr [JObj [(''loc'', JArr [JStr ''body'', JStr ''title'']),
                      (''msg'', JStr ''field required'')],
                JStr ''bad genre''])])) = Inr ''body.title: field required, bad genre''
   \<and> submit_error_message (Some (500, JObj [(''detail'', JObj [(''code'', JNum 7)])])) =
        Inr (''{'' @ quote ''code'' @ '':7}'')
   \<and> \<not> truthy (error_detail (Some (502, JStr ''Bad Gateway'')))
   \<and> submit_error_message (Some (502, JStr ''Bad Gateway'')) = Inr ''Failed to create project''
   \<and> toasts (state_of (submit_failed None initial_creator)) =
        [ToastError (JStr ''Failed to create project'')]"
  using error_payload_normalised[of "Some (400, JObj [(''detail'', JStr ''Quota exceeded'')])"
          "''Quota exceeded''" "[]" "[]" "''Quota exceeded''" initial_creator]
        error_payload_normalised[of "Some (422, JObj [(''detail'',
            JArr [JObj [(''loc'', JArr [JStr ''body'', JStr ''title'']),
                        (''msg'', JStr ''field required'')],
                  JStr ''bad genre''])])"
          "[]" "[JObj [(''loc'', JArr [JStr ''body'', JStr ''title'']),
                        (''msg'', JStr ''field required'')],
                  JStr ''bad genre'']" "[]" "[]" initial_creator]
        error_payload_normalised[of "Some (500, JObj [(''detail'', JObj [(''code'', JNum 7)])])"
          "[]" "[]" "[(''code'', JNum 7)]" "[]" initial_creator]
        error_payload_normalised[of "Some (502, JStr ''Bad Gateway'')" "[]" "[]" "[]" "[]"
          initial_creator]
        error_payload_normalised[of None "[]" "[]" "[]" "''Failed to create project''"
          initial_creator]
  by (simp add: message_eval int_to_string_def nat_to_string.simps digit_char_def
      initial_creator_def)

text \<open>An array element \<open>null\<close> is no field-level error: the callback throws on it.\<close>

lemma null_item_throws:
  "submit_error_message (Some (422, JObj [(''detail'', JArr [JNull])])) = Inl TypeError"
  by (simp add: message_eval)

section \<open>Properties of the project store\<close>

lemma selectable_genres_eq:
  "selectable_genres = [''ebook'', ''novel'', ''kids_story'', ''coloring_book'', ''audiobook'']"
  by (simp add: selectable_genres_def genreConfig_def)

text \<open>
  Claim C8 fails on the schema.  The Project Creator offers \<open>audiobook\<close>, the fifth key
  of \<open>genreConfig\<close>, but the \<open>CHECK\<close> constraint of \<open>projects.genre\<close> lists four genres
  only: inserting an audiobook project violates the constraint, while the same row with
  the genre \<open>novel\<close> is stored.
\<close>

theorem audiobook_rejected_by_genre_check:
  "''audiobook'' \<in> set selectable_genres
   \<and> \<not> projects_genre_check ''audiobook''
   \<and> projects_insert \<lparr>row_title = Some ''Night Tales'', row_genre = Some ''audiobook'',
                        row_status = None, row_content = Some ''Once''\<rparr> [] =
       Inl (CheckViolation ''genre'')
   \<and> projects_insert \<lparr>row_title = Some ''Night Tales'', row_genre = Some ''novel'',
                        row_status = None, row_content = Some ''Once''\<rparr> [] =
       Inr [\<lparr>row_title = Some ''Night Tales'', row_genre = Some ''novel'',
             row_status = Some ''draft'', row_content = Some ''Once''\<rparr>]"
proof -
  have offered: "''audiobook'' \<in> set selectable_genres"
    by (simp add: selectable_genres_eq)
  have refused: "\<not> projects_genre_check ''audiobook''"
    by (simp add: projects_genre_check_def)
  have insert_audiobook:
    "projects_insert \<lparr>row_title = Some ''Night Tales'', row_genre = Some ''audiobook'',
                        row_status = None, row_content = Some ''Once''\<rparr> [] =
       Inl (CheckViolation ''genre'')"
    by (simp add: projects_genre_check_def projects_insert_def)
  have insert_novel:
    "projects_insert \<lparr>row_title = Some ''Night Tales'', row_genre = Some ''novel'',
                        row_status = None, row_content = Some ''Once''\<rparr> [] =
       Inr [\<lparr>row_title = Some ''Night Tales'', row_genre = Some ''novel'',
             row_status = Some ''draft'', row_content = Some ''Once''\<rparr>]"
    by (simp add: projects_genre_check_def projects_status_check_def projects_insert_def)
  show ?thesis
    by (intro conjI offered refused insert_audiobook insert_novel)
qed

lemma other_genres_accepted:
  "g \<in> set selectable_genres \<Longrightarrow> g \<noteq> ''audiobook'' \<Longrightarrow> projects_genre_check g"
  by (auto simp: selectable_genres_eq projects_genre_check_def)

section \<open>Properties of the Project Editor\<close>

lemma js_or_simps:
  "truthy a \<Longrightarrow> js_or a b = a"
  "\<not> truthy a \<Longrightarrow> js_or a b = b"
  by (simp_all add: js_or_def)

text \<open>
  Claim C10.  When a project has loaded, the editable content is its
  \<open>generated_content\<close> if that is a non-empty string; otherwise (missing, \<open>null\<close> or
  empty) its \<open>content\<close> if that is a non-empty string; otherwise the empty string.
\<close>

theorem editor_content_precedence:
  "\<not> nullish d \<longrightarrow>
     (get_prop d ''generated_content'' = JStr g \<and> g \<noteq> [] \<longrightarrow>
        content_state (fetchProject_settle (Resolved d) st) = JStr g)
   \<and> (\<not> truthy (get_prop d ''generated_content'') \<and> get_prop d ''content'' = JStr c
        \<and> c \<noteq> [] \<longrightarrow>
        content_state (fetchProject_settle (Resolved d) st) = JStr c)
   \<and> (\<not> truthy (get_prop d ''generated_content'') \<and> \<not> truthy (get_prop d ''content'') \<longrightarrow>
        content_state (fetchProject_settle (Resolved d) st) = JStr [])"
  by (simp add: fetchProject_settle_def js_or_simps)

theorem editor_content_precedence_witness:
  "\<not> nullish (JObj [(''content'', JStr ''a prompt''), (''generated_content'', JStr ''Chapter 1'')])
   \<and> content_state (fetchProject_settle
        (Resolved (JObj [(''content'', JStr ''a prompt''),
                         (''generated_content'', JStr ''Chapter 1'')])) initial_editor) =
        JStr ''Chapter 1''
   \<and> \<not> truthy (get_prop (JObj [(''content'', JStr ''a prompt''), (''generated_content'', JStr [])])
          ''generated_content'')
   \<and> content_state (fetchProject_settle
        (Resolved (JObj [(''content'', JStr ''a prompt''), (''generated_content'', JStr [])]))
        initial_editor) = JStr ''a prompt''
   \<and> content_state (fetchProject_settle (Resolved (JObj [(''title'', JStr ''T'')]))
        initial_editor) = JStr []"
  using editor_content_precedence[of
          "JObj [(''content'', JStr ''a prompt''), (''generated_content'', JStr ''Chapter 1'')]"
          "''Chapter 1''" initial_editor "[]"]
        editor_content_precedence[of
          "JObj [(''content'', JStr ''a prompt''), (''generated_content'', JStr [])]"
          "[]" initial_editor "''a prompt''"]
        editor_content_precedence[of "JObj [(''title'', JStr ''T'')]" "[]" initial_editor "[]"]
  by (simp add: nullish_def)

end
